theory Spec2Isabelle
  imports Main "HOL-Library.Sublist"
begin

section \<open>JavaScript strings\<close>

text \<open>
  The server works on JavaScript strings, which are sequences of UTF-16 code units.
  A text is modelled as a \<^typ>\<open>string\<close>; every \<^typ>\<open>char\<close> stands for one code unit, so
  the model covers the code units 0 to 255 (ASCII and Latin-1), and \<^const>\<open>length\<close>,
  \<^const>\<open>take\<close> and \<^const>\<open>drop\<close> count code units as \<open>length\<close>, \<open>substring\<close> and
  \<open>slice\<close> do.  A value that is \<open>undefined\<close>, \<open>null\<close> or missing from a request body
  is \<^const>\<open>None\<close>.
\<close>

definition nl :: char where
  "nl = CHR 0x0A"

definition backtick :: char where
  "backtick = CHR 0x60"

definition dquote :: char where
  "dquote = CHR 0x22"

definition squote :: char where
  "squote = CHR 0x27"

text \<open>
  \<open>\s\<close> and \<open>trim()\<close> use the same set, WhiteSpace and LineTerminator of ECMAScript; below
  256 these are TAB, LF, VT, FF, CR, SPACE and NO-BREAK SPACE.
\<close>

definition is_space :: "char \<Rightarrow> bool" where
  "is_space c \<longleftrightarrow> (of_char c :: nat) \<in> {9, 10, 11, 12, 13, 32, 160}"

text \<open>\<open>\w\<close> is \<open>[A-Za-z0-9_]\<close>, \<open>\d\<close> is \<open>[0-9]\<close>.\<close>

definition is_upper :: "char \<Rightarrow> bool" where
  "is_upper c \<longleftrightarrow> 65 \<le> (of_char c :: nat) \<and> (of_char c :: nat) \<le> 90"

definition is_lower :: "char \<Rightarrow> bool" where
  "is_lower c \<longleftrightarrow> 97 \<le> (of_char c :: nat) \<and> (of_char c :: nat) \<le> 122"

definition is_digit :: "char \<Rightarrow> bool" where
  "is_digit c \<longleftrightarrow> 48 \<le> (of_char c :: nat) \<and> (of_char c :: nat) \<le> 57"

definition is_word :: "char \<Rightarrow> bool" where
  "is_word c \<longleftrightarrow> is_upper c \<or> is_lower c \<or> is_digit c \<or> c = CHR ''_''"

text \<open>
  \<open>toLowerCase()\<close> on the code units below 256: the ASCII capitals and the Latin-1
  capitals U+00C0 to U+00DE (without the multiplication sign U+00D7) move up by 32.
\<close>

definition lower_char :: "char \<Rightarrow> char" where
  "lower_char c =
     (let n = (of_char c :: nat)
      in if (65 \<le> n \<and> n \<le> 90) \<or> (192 \<le> n \<and> n \<le> 222 \<and> n \<noteq> 215)
         then char_of (n + 32) else c)"

definition toLowerCase :: "string \<Rightarrow> string" where
  "toLowerCase s = map lower_char s"

text \<open>
  Canonicalize of a regular expression with the \<open>i\<close> flag (and without \<open>u\<close>) compares the
  upper-case forms of single code units.  Below 256 the small ASCII letters and the small
  Latin-1 letters U+00E0 to U+00FE (without the division sign U+00F7) move down by 32;
  the capitals of U+00B5 and U+00FF lie above 255 and equal the canonical form of no other
  code unit below 256, so these two stay as they are.
\<close>

definition canonicalize :: "char \<Rightarrow> char" where
  "canonicalize c =
     (let n = (of_char c :: nat)
      in if (97 \<le> n \<and> n \<le> 122) \<or> (224 \<le> n \<and> n \<le> 254 \<and> n \<noteq> 247)
         then char_of (n - 32) else c)"

definition trimStart :: "string \<Rightarrow> string" where
  "trimStart s = dropWhile is_space s"

definition trimEnd :: "string \<Rightarrow> string" where
  "trimEnd s = rev (dropWhile is_space (rev s))"

definition trim :: "string \<Rightarrow> string" where
  "trim s = trimEnd (trimStart s)"

text \<open>\<open>s.includes(t)\<close>, \<open>s.startsWith(t)\<close> and \<open>s.endsWith(t)\<close>.\<close>

fun js_includes :: "string \<Rightarrow> string \<Rightarrow> bool" where
  "js_includes [] t = (t = [])"
| "js_includes (c # cs) t = (prefix t (c # cs) \<or> js_includes cs t)"

definition startsWith :: "string \<Rightarrow> string \<Rightarrow> bool" where
  "startsWith s t = prefix t s"

definition endsWith :: "string \<Rightarrow> string \<Rightarrow> bool" where
  "endsWith s t = suffix t s"

text \<open>\<open>s.replace(t, u)\<close> with a string pattern replaces the first occurrence of \<open>t\<close>.\<close>

fun replace_first :: "string \<Rightarrow> string \<Rightarrow> string \<Rightarrow> string" where
  "replace_first [] t u = (if t = [] then u else [])"
| "replace_first (c # cs) t u =
     (if prefix t (c # cs) then u @ drop (length t) (c # cs)
      else c # replace_first cs t u)"

text \<open>\<open>xs.join(sep)\<close>.\<close>

fun join :: "string \<Rightarrow> string list \<Rightarrow> string" where
  "join sep [] = []"
| "join sep [x] = x"
| "join sep (x # y # ys) = x @ sep @ join sep (y # ys)"

text \<open>A string is truthy when it is present and not empty.\<close>

fun truthy :: "string option \<Rightarrow> bool" where
  "truthy None = False"
| "truthy (Some s) = (s \<noteq> [])"

section \<open>Regular expressions\<close>

text \<open>
  The regular expressions of the server are values of the type \<open>regex\<close>, run by one
  backtracking matcher.  \<open>Atom p\<close> consumes one code unit that satisfies \<open>p\<close>; \<open>Star\<close> is
  the greedy \<open>*\<close>, \<open>Lazy\<close> the non-greedy \<open>*?\<close>; \<open>Group n\<close> is the \<open>n\<close>-th capturing
  group; \<open>Bol\<close> and \<open>Eol\<close> are \<open>^\<close> and \<open>$\<close> without the \<open>m\<close> flag; \<open>Ahead\<close> is the
  lookahead \<open>(?=...)\<close>.
\<close>

datatype regex =
    Eps
  | Atom "char \<Rightarrow> bool"
  | Seq regex regex
  | Alt regex regex
  | Star regex
  | Lazy regex
  | Group nat regex
  | Bol
  | Eol
  | Ahead regex

text \<open>
  A matcher state is the index reached in the subject, the rest of the subject from
  there, and the captures made so far (the latest first).
\<close>

type_synonym mstate = "nat \<times> string \<times> (nat \<times> string) list"

definition rest_of :: "mstate \<Rightarrow> string" where
  "rest_of st = fst (snd st)"

text \<open>
  \<open>ms r st\<close> lists the states in which a match of \<open>r\<close> from \<open>st\<close> can end, in the order
  in which the backtracking matcher of ECMAScript tries them: the first state from which
  the rest of the pattern matches is the one the engine takes.  As in RepeatMatcher, an
  iteration of \<open>*\<close> that consumes nothing is rejected.  (No group of the server's patterns
  stands inside a repetition, so the reset of captures at each iteration is not modelled.)
\<close>

function ms :: "regex \<Rightarrow> mstate \<Rightarrow> mstate list" where
  "ms Eps st = [st]"
| "ms (Atom p) st =
     (case rest_of st of
        [] \<Rightarrow> []
      | x # xs \<Rightarrow> if p x then [(Suc (fst st), xs, snd (snd st))] else [])"
| "ms (Seq a b) st = concat (map (ms b) (ms a st))"
| "ms (Alt a b) st = ms a st @ ms b st"
| "ms (Star r) st =
     concat (map (\<lambda>st'. if length (rest_of st') < length (rest_of st)
                         then ms (Star r) st' else []) (ms r st)) @ [st]"
| "ms (Lazy r) st =
     st # concat (map (\<lambda>st'. if length (rest_of st') < length (rest_of st)
                              then ms (Lazy r) st' else []) (ms r st))"
| "ms (Group n r) st =
     map (\<lambda>st'. (fst st', rest_of st',
                  (n, take (fst st' - fst st) (rest_of st)) # snd (snd st')))
       (ms r st)"
| "ms Bol st = (if fst st = 0 then [st] else [])"
| "ms Eol st = (if rest_of st = [] then [st] else [])"
| "ms (Ahead r) st =
     (case ms r st of
        [] \<Rightarrow> []
      | st' # _ \<Rightarrow> [(fst st, rest_of st, snd (snd st'))])"
  by pat_completeness auto
termination
  by (relation "inv_image (less_than <*lex*> less_than)
                  (\<lambda>(r, st). (size r, length (rest_of st)))") auto

text \<open>The derived forms \<open>+\<close>, \<open>?\<close>, a sequence and a literal (with and without the \<open>i\<close> flag).\<close>

definition Plus :: "regex \<Rightarrow> regex" where
  "Plus r = Seq r (Star r)"

definition Opt :: "regex \<Rightarrow> regex" where
  "Opt r = Alt r Eps"

fun seq :: "regex list \<Rightarrow> regex" where
  "seq [] = Eps"
| "seq (r # rs) = Seq r (seq rs)"

definition Chr :: "char \<Rightarrow> regex" where
  "Chr c = Atom (\<lambda>x. x = c)"

definition ChrI :: "char \<Rightarrow> regex" where
  "ChrI c = Atom (\<lambda>x. canonicalize x = canonicalize c)"

definition Lit :: "string \<Rightarrow> regex" where
  "Lit s = seq (map Chr s)"

definition LitI :: "string \<Rightarrow> regex" where
  "LitI s = seq (map ChrI s)"

text \<open>The match of \<open>r\<close> that starts exactly at a state, if there is one.\<close>

definition match_at :: "regex \<Rightarrow> mstate \<Rightarrow> mstate option" where
  "match_at r st = (case ms r st of [] \<Rightarrow> None | st' # _ \<Rightarrow> Some st')"

text \<open>
  RegExpBuiltinExec: from index \<open>i\<close> (the rest of the subject there is \<open>s\<close>) try every
  start index in turn, the end of the subject included.  The result is the start index
  and the state at the end of the match.
\<close>

fun exec_from :: "regex \<Rightarrow> nat \<Rightarrow> string \<Rightarrow> (nat \<times> mstate) option" where
  "exec_from r i [] = map_option (Pair i) (match_at r (i, [], []))"
| "exec_from r i (c # cs) =
     (case match_at r (i, c # cs, []) of
        Some st \<Rightarrow> Some (i, st)
      | None \<Rightarrow> exec_from r (Suc i) cs)"

text \<open>The value of capture \<open>n\<close>; a group that did not take part is \<open>undefined\<close>.\<close>

definition capture :: "mstate \<Rightarrow> nat \<Rightarrow> string option" where
  "capture st n = map_of (snd (snd st)) n"

text \<open>
  The loop \<open>while ((match = re.exec(text)) !== null) { ... }\<close> over a pattern with the \<open>g\<close>
  flag: every call starts at \<open>lastIndex\<close>, the end of the match before.  A match that
  consumes nothing leaves \<open>lastIndex\<close> where it is, and the loop finds it again for ever:
  then the loop does not return, which is the value \<^const>\<open>None\<close>.
\<close>

function exec_loop :: "regex \<Rightarrow> nat \<Rightarrow> string \<Rightarrow> mstate list option" where
  "exec_loop r i s =
     (case exec_from r i s of
        None \<Rightarrow> Some []
      | Some (start, st) \<Rightarrow>
          if length (rest_of st) < length s
          then map_option ((#) st) (exec_loop r (fst st) (rest_of st))
          else None)"
  by pat_completeness auto
termination
  by (relation "measure (\<lambda>(r, i, s). length s)") auto

text \<open>\<open>text.match(re)\<close> for a pattern without the \<open>g\<close> flag: the first match from index 0.\<close>

definition match_first :: "regex \<Rightarrow> string \<Rightarrow> mstate option" where
  "match_first r s = map_option snd (exec_from r 0 s)"

text \<open>
  \<open>text.replace(re, '')\<close> for a pattern with the \<open>g\<close> flag: every match is cut out; after
  a match that consumes nothing the search goes on one code unit further.
\<close>

function remove_all :: "regex \<Rightarrow> nat \<Rightarrow> string \<Rightarrow> string" where
  "remove_all r i [] = []"
| "remove_all r i (c # cs) =
     (case match_at r (i, c # cs, []) of
        None \<Rightarrow> c # remove_all r (Suc i) cs
      | Some st \<Rightarrow>
          if length (rest_of st) < length (c # cs)
          then remove_all r (fst st) (rest_of st)
          else c # remove_all r (Suc i) cs)"
  by pat_completeness auto
termination
  by (relation "measure (\<lambda>(r, i, s). length s)") auto

section \<open>The action protocol parser\<close>

text \<open>
  The character classes of the patterns.  All patterns but the quote pattern carry the
  \<open>i\<close> flag; it changes no class below, since no code unit outside a class has the
  canonical form of a member.
\<close>

definition any_char :: "char \<Rightarrow> bool" where
  "any_char c = True"

definition path_char :: "char \<Rightarrow> bool" where
  "path_char c \<longleftrightarrow> c \<noteq> nl \<and> c \<noteq> backtick"

definition is_quote :: "char \<Rightarrow> bool" where
  "is_quote c \<longleftrightarrow> c = dquote \<or> c = squote"

definition name_char :: "char \<Rightarrow> bool" where
  "name_char c \<longleftrightarrow> is_lower c \<or> is_upper c \<or> is_digit c \<or> c = CHR ''_'' \<or> c = CHR ''-''
     \<or> c = CHR ''/'' \<or> c = CHR ''.''"

definition alnum_char :: "char \<Rightarrow> bool" where
  "alnum_char c \<longleftrightarrow> is_lower c \<or> is_upper c \<or> is_digit c"

definition target_char :: "char \<Rightarrow> bool" where
  "target_char c \<longleftrightarrow> \<not> is_space c \<and> c \<noteq> dquote \<and> c \<noteq> squote"

text \<open>\<^verbatim>\<open>/FILE:\s*([^\n`]+)\s*\n\s*```[\w]*\s*\n([\s\S]*?)```/gi\<close>\<close>

definition fileRegex :: regex where
  "fileRegex = seq
     [LitI ''FILE:'', Star (Atom is_space), Group 1 (Plus (Atom path_char)),
      Star (Atom is_space), Chr nl, Star (Atom is_space), Lit ''```'',
      Star (Atom is_word), Star (Atom is_space), Chr nl,
      Group 2 (Lazy (Atom any_char)), Lit ''```'']"

text \<open>\<^verbatim>\<open>/EXPLANATION:\s*([\s\S]*?)(?=FILE:|$)/i\<close>\<close>

definition explanationRegex :: regex where
  "explanationRegex = seq
     [LitI ''EXPLANATION:'', Star (Atom is_space), Group 1 (Lazy (Atom any_char)),
      Ahead (Alt (LitI ''FILE:'') Eol)]"

text \<open>\<^verbatim>\<open>/^["']|["']$/g\<close>\<close>

definition quoteRegex :: regex where
  "quoteRegex = Alt (Seq Bol (Atom is_quote)) (Seq (Atom is_quote) Eol)"

text \<open>\<^verbatim>\<open>/(?:^|\n)([a-zA-Z0-9_\-\/\.]+\.[a-zA-Z0-9]+)\s*\n```[\w]*\n([\s\S]*?)```/gi\<close>\<close>

definition altRegex1 :: regex where
  "altRegex1 = seq
     [Alt Bol (Chr nl),
      Group 1 (seq [Plus (Atom name_char), Chr CHR ''.'', Plus (Atom alnum_char)]),
      Star (Atom is_space), Chr nl, Lit ''```'', Star (Atom is_word), Chr nl,
      Group 2 (Lazy (Atom any_char)), Lit ''```'']"

text \<open>
  \<^verbatim>\<open>/(?:create|update|write|make)\s+(?:a\s+)?(?:file\s+)?(?:called\s+)?["\']?\<close>
  \<^verbatim>\<open>([a-zA-Z0-9_\-\/\.]+\.[a-zA-Z0-9]+)["\']?\s*[:\n]+\s*```[\w]*\n([\s\S]*?)```/gi\<close>
\<close>

definition createRegex :: regex where
  "createRegex = seq
     [Alt (LitI ''create'') (Alt (LitI ''update'') (Alt (LitI ''write'') (LitI ''make''))),
      Plus (Atom is_space),
      Opt (Seq (LitI ''a'') (Plus (Atom is_space))),
      Opt (Seq (LitI ''file'') (Plus (Atom is_space))),
      Opt (Seq (LitI ''called'') (Plus (Atom is_space))),
      Opt (Atom is_quote),
      Group 1 (seq [Plus (Atom name_char), Chr CHR ''.'', Plus (Atom alnum_char)]),
      Opt (Atom is_quote),
      Star (Atom is_space), Plus (Atom (\<lambda>c. c = CHR '':'' \<or> c = nl)),
      Star (Atom is_space), Lit ''```'', Star (Atom is_word), Chr nl,
      Group 2 (Lazy (Atom any_char)), Lit ''```'']"

text \<open>
  \<open>match[n]\<close> of a match.  Groups 1 and 2 of the patterns above stand outside every
  alternative and option, so they take part in every match; \<open>undefined\<close> reads as the
  empty string here.
\<close>

definition group :: "mstate \<Rightarrow> nat \<Rightarrow> string" where
  "group st n = (case capture st n of None \<Rightarrow> [] | Some s \<Rightarrow> s)"

text \<open>\<open>replace(/^["']|["']$/g, '')\<close>\<close>

definition strip_quotes :: "string \<Rightarrow> string" where
  "strip_quotes s = remove_all quoteRegex 0 s"

record file_edit =
  filepath :: string
  content :: string

text \<open>
  The body of the loop over the matches of \<open>fileRegex\<close>, the same in \<open>/api/ai/chat\<close> and
  \<open>/api/ai/auto-fix\<close>:
  \<^verbatim>\<open>const filepath = match[1].trim().replace(/^["']|["']$/g, '');\<close>
  \<^verbatim>\<open>const content = match[2].trim();\<close>
  \<^verbatim>\<open>if (filepath && content) { ... }\<close>
\<close>

definition file_edit_of :: "mstate \<Rightarrow> file_edit" where
  "file_edit_of st =
     \<lparr>filepath = strip_quotes (trim (group st 1)), content = trim (group st 2)\<rparr>"

definition accepted :: "file_edit \<Rightarrow> bool" where
  "accepted e \<longleftrightarrow> filepath e \<noteq> [] \<and> content e \<noteq> []"

definition file_blocks :: "string \<Rightarrow> file_edit list option" where
  "file_blocks text =
     map_option (\<lambda>sts. filter accepted (map file_edit_of sts)) (exec_loop fileRegex 0 text)"

text \<open>
  The two fallback grammars of \<open>/api/ai/chat\<close>; they take the path as it is matched:
  \<^verbatim>\<open>const filepath = match[1].trim();\<close>
  and the first of them keeps a path only if it has a dot and no space.
\<close>

definition alt_edit_of :: "mstate \<Rightarrow> file_edit" where
  "alt_edit_of st = \<lparr>filepath = trim (group st 1), content = trim (group st 2)\<rparr>"

definition alt1_blocks :: "string \<Rightarrow> file_edit list option" where
  "alt1_blocks text =
     map_option
       (\<lambda>sts. filter (\<lambda>e. accepted e \<and> \<not> js_includes (filepath e) '' ''
                            \<and> js_includes (filepath e) ''.'')
                 (map alt_edit_of sts))
       (exec_loop altRegex1 0 text)"

definition create_blocks :: "string \<Rightarrow> file_edit list option" where
  "create_blocks text =
     map_option (\<lambda>sts. filter accepted (map alt_edit_of sts)) (exec_loop createRegex 0 text)"

text \<open>
  The files that \<open>/api/ai/chat\<close> extracts from the provider's answer: the \<open>FILE:\<close> grammar
  first, and each fallback only while no file was found and the instruction is a file
  operation.
\<close>

definition chat_files :: "bool \<Rightarrow> string \<Rightarrow> file_edit list option" where
  "chat_files isFileOperation aiResponse =
     (case file_blocks aiResponse of
        None \<Rightarrow> None
      | Some files0 \<Rightarrow>
          (case (if files0 = [] \<and> isFileOperation
                 then map_option ((@) files0) (alt1_blocks aiResponse)
                 else Some files0) of
             None \<Rightarrow> None
           | Some files1 \<Rightarrow>
               if files1 = [] \<and> isFileOperation
               then map_option ((@) files1) (create_blocks aiResponse)
               else Some files1))"

text \<open>
  \<^verbatim>\<open>const explanationMatch = aiResponse.match(/EXPLANATION:.../i);\<close>
  \<^verbatim>\<open>if (explanationMatch) { explanation = explanationMatch[1].trim(); }\<close>
\<close>

definition explanation_of :: "string \<Rightarrow> string" where
  "explanation_of aiResponse =
     (case match_first explanationRegex aiResponse of
        None \<Rightarrow> []
      | Some st \<Rightarrow> trim (group st 1))"

section \<open>The auto-repair loop: \<open>POST /api/ai/auto-fix\<close>\<close>

text \<open>
  What the callback of \<open>exec\<close> receives: \<open>error\<close> (its message, when there is one),
  \<open>stdout\<close> and \<open>stderr\<close>.  A call of \<open>exec\<close> either throws at once, before a process
  starts (Node refuses an empty command and a command with a NUL in it), or it returns
  and calls back later: the outcome of a call is a value of type
  \<open>string + exec_result\<close>, with \<open>Inl\<close> the message of the error thrown.
\<close>

record exec_result =
  error :: "string option"
  stdout :: string
  stderr :: string

text \<open>What \<open>db.readFile\<close> does: it throws, or it returns the column, which may be \<open>null\<close>.\<close>

datatype read_result = ReadThrows | ReadNull | ReadText string

text \<open>
  The collaborators of the loop.  The outcome of a call is given by the environment; every
  call is named by the attempt in which it happens (and by its position within the
  attempt), so an environment stands for an arbitrary sequence of run outcomes, store
  outcomes and provider responses.  \<open>Inl\<close> is a thrown error with its message.
\<close>

record env =
  getAllProjectFiles :: "string \<Rightarrow> string + string list"
  exec :: "nat \<Rightarrow> string \<Rightarrow> string + exec_result"
  readFile :: "nat \<Rightarrow> nat \<Rightarrow> string \<Rightarrow> string \<Rightarrow> read_result"
  callHF :: "nat \<Rightarrow> string \<Rightarrow> string + string"
  writeFile :: "nat \<Rightarrow> nat \<Rightarrow> string \<Rightarrow> file_edit \<Rightarrow> bool"

text \<open>
  The entries of the history \<open>fixes\<close>, one constructor for each \<open>action\<close>; the first
  field is \<open>attempt\<close>.  The \<open>message\<close> texts of the entries and of the responses are
  decoration for the user and are left out.
\<close>

datatype action = success | error_detected | applied_fix | no_fix_found

datatype fix_entry =
    FixSuccess nat string
  | FixError nat string
  | FixApplied nat string "string list"
  | FixNone nat string

fun attempt_of :: "fix_entry \<Rightarrow> nat" where
  "attempt_of (FixSuccess n out) = n"
| "attempt_of (FixError n e) = n"
| "attempt_of (FixApplied n ex fs) = n"
| "attempt_of (FixNone n r) = n"

fun action_of :: "fix_entry \<Rightarrow> action" where
  "action_of (FixSuccess n out) = success"
| "action_of (FixError n e) = error_detected"
| "action_of (FixApplied n ex fs) = applied_fix"
| "action_of (FixNone n r) = no_fix_found"

text \<open>
  The responses of the endpoint, one constructor for each \<open>return\<close>:
  status 400 without a project; \<open>success: false\<close> with \<open>fixes: []\<close> when no command is
  found; \<open>success: true\<close> with the history and \<open>finalOutput\<close>; \<open>success: false\<close> with the
  history after the loop; status 500 with \<open>err.message\<close> and the history from the
  \<open>catch\<close>.  \<open>NoResponse\<close> stands for a handler that never answers.
\<close>

datatype autofix_response =
    ProjectRequired
  | Abandoned "fix_entry list"
  | Succeeded "fix_entry list" string
  | Exhausted "fix_entry list"
  | ServerError string "fix_entry list"
  | NoResponse

fun fixes_of :: "autofix_response \<Rightarrow> fix_entry list option" where
  "fixes_of ProjectRequired = None"
| "fixes_of (Abandoned fs) = Some fs"
| "fixes_of (Succeeded fs out) = Some fs"
| "fixes_of (Exhausted fs) = Some fs"
| "fixes_of (ServerError e fs) = Some fs"
| "fixes_of NoResponse = None"

fun success_of :: "autofix_response \<Rightarrow> bool option" where
  "success_of (Abandoned fs) = Some False"
| "success_of (Succeeded fs out) = Some True"
| "success_of (Exhausted fs) = Some False"
| "success_of r = None"

text \<open>
  What a request has done to the world: the commands handed to \<open>exec\<close>, the prompts
  submitted to the completion provider, and the files written to the content store, each
  in order.
\<close>

record trace =
  runs :: "string list"
  prompts :: "string list"
  writes :: "file_edit list"

definition no_trace :: trace where
  "no_trace = \<lparr>runs = [], prompts = [], writes = []\<rparr>"

definition maxAttempts :: nat where
  "maxAttempts = 5"

subsection \<open>The run command\<close>

text \<open>
  \<open>xs.find(p) || ys.find(q)\<close> and the template literal around it; a file name that
  \<open>find\<close> returns here is never empty, and \<open>undefined\<close> prints as its name.
\<close>

definition find_main_py :: "string list \<Rightarrow> string" where
  "find_main_py projectFiles =
     (case find (\<lambda>f. js_includes f ''main.py'' \<or> js_includes f ''app.py'') projectFiles of
        Some f \<Rightarrow> f
      | None \<Rightarrow>
          (case find (\<lambda>f. endsWith f ''.py'') projectFiles of
             Some f \<Rightarrow> f
           | None \<Rightarrow> ''undefined''))"

definition determine_command :: "string list \<Rightarrow> string option" where
  "determine_command projectFiles =
     (if list_ex (\<lambda>f. endsWith f ''.py'') projectFiles
      then Some (''py '' @ find_main_py projectFiles)
      else if list_ex (\<lambda>f. endsWith f ''.go'') projectFiles
      then Some ''go run .''
      else if list_ex (\<lambda>f. endsWith f ''.js'' \<and> js_includes f ''server'') projectFiles
      then Some ''node server.js''
      else if list_ex (\<lambda>f. endsWith f ''.java'') projectFiles
      then (case find (\<lambda>f. js_includes f ''Main.java'') projectFiles of
              Some mainFile \<Rightarrow>
                Some (''javac '' @ mainFile @ '' && java '' @ replace_first mainFile ''.java'' [])
            | None \<Rightarrow> Some ''javac *.java && java Main'')
      else None)"

text \<open>\<^verbatim>\<open>let command = runCommand; if (!command) { ... }\<close>\<close>

definition choose_command :: "string option \<Rightarrow> string list \<Rightarrow> string option" where
  "choose_command runCommand projectFiles =
     (if truthy runCommand then runCommand else determine_command projectFiles)"

subsection \<open>The object \<open>fileContents\<close>\<close>

text \<open>
  \<open>fileContents\<close> is a plain object: its own properties are kept in the order of their
  creation, an assignment to an existing key changes the value in place, and an
  assignment of a string or of \<open>null\<close> to the key \<open>__proto__\<close> creates no property.
\<close>

fun obj_put :: "(string \<times> 'v) list \<Rightarrow> string \<Rightarrow> 'v \<Rightarrow> (string \<times> 'v) list" where
  "obj_put [] k v = [(k, v)]"
| "obj_put ((k', v') # ps) k v =
     (if k' = k then (k, v) # ps else (k', v') # obj_put ps k v)"

definition obj_assign :: "(string \<times> 'v) list \<Rightarrow> string \<Rightarrow> 'v \<Rightarrow> (string \<times> 'v) list" where
  "obj_assign obj k v = (if k = ''__proto__'' then obj else obj_put obj k v)"

text \<open>
  \<open>Object.entries\<close> lists the array-index keys first (the canonical decimal numerals up
  to \<open>2^32 - 2\<close>), in ascending order, and then the other keys in the order of creation.
\<close>

definition digits_value :: "string \<Rightarrow> nat" where
  "digits_value k = foldl (\<lambda>n c. 10 * n + (of_char c - 48)) 0 k"

definition array_index :: "string \<Rightarrow> nat option" where
  "array_index k =
     (if k \<noteq> [] \<and> list_all is_digit k \<and> (k = ''0'' \<or> hd k \<noteq> CHR ''0'')
         \<and> digits_value k \<le> 4294967294
      then Some (digits_value k) else None)"

definition index_key :: "string \<times> 'v \<Rightarrow> nat" where
  "index_key p = (case array_index (fst p) of None \<Rightarrow> 0 | Some n \<Rightarrow> n)"

definition entries :: "(string \<times> 'v) list \<Rightarrow> (string \<times> 'v) list" where
  "entries obj =
     sort_key index_key (filter (\<lambda>p. array_index (fst p) \<noteq> None) obj)
     @ filter (\<lambda>p. array_index (fst p) = None) obj"

text \<open>
  \<^verbatim>\<open>for (const file of projectFiles.slice(0, 10)) {\<close>
  \<^verbatim>\<open>  try { const content = await db.readFile(project, file);\<close>
  \<^verbatim>\<open>        fileContents[file] = content; } catch {} }\<close>
  \<open>i\<close> is the position of the file in the slice.
\<close>

fun read_files ::
  "env \<Rightarrow> nat \<Rightarrow> string \<Rightarrow> nat \<Rightarrow> string list \<Rightarrow> (string \<times> string option) list
     \<Rightarrow> (string \<times> string option) list" where
  "read_files e attempt project i [] obj = obj"
| "read_files e attempt project i (file # files) obj =
     (case readFile e attempt i project file of
        ReadThrows \<Rightarrow> read_files e attempt project (Suc i) files obj
      | ReadNull \<Rightarrow> read_files e attempt project (Suc i) files (obj_assign obj file None)
      | ReadText t \<Rightarrow> read_files e attempt project (Suc i) files (obj_assign obj file (Some t)))"

definition fileContents :: "env \<Rightarrow> nat \<Rightarrow> string \<Rightarrow> string list \<Rightarrow> (string \<times> string option) list" where
  "fileContents e attempt project projectFiles =
     read_files e attempt project 0 (take 10 projectFiles) []"

subsection \<open>The repair prompt\<close>

text \<open>
  The files that the prompt embeds, each with \<open>content.substring(0, 3000)\<close>; on a content
  that is \<open>null\<close> the call of \<open>substring\<close> throws a TypeError, which is \<^const>\<open>None\<close>.
\<close>

definition embedded :: "(string \<times> string option) list \<Rightarrow> (string \<times> string) list option" where
  "embedded obj =
     (if list_ex (\<lambda>p. snd p = None) (entries obj) then None
      else Some (map (\<lambda>p. (fst p, take 3000 (case snd p of None \<Rightarrow> [] | Some c \<Rightarrow> c)))
                   (entries obj)))"

definition lines :: "string list \<Rightarrow> string" where
  "lines ls = join [nl] ls"

text \<open>\<^verbatim>\<open>`FILE: ${name}\n\`\`\`\n${content.substring(0, 3000)}\n\`\`\`\n`\<close>\<close>

definition file_section :: "string \<times> string \<Rightarrow> string" where
  "file_section p = lines [''FILE: '' @ fst p, ''```'', snd p, ''```'', []]"

definition fixPrompt :: "(string \<times> string) list \<Rightarrow> string \<Rightarrow> string \<Rightarrow> string" where
  "fixPrompt files command errorOutput = lines
     [''You are a debugging expert. The code has an error. You MUST fix it.'',
      [],
      ''PROJECT FILES:'',
      join [nl] (map file_section files),
      [],
      ''RUN COMMAND: '' @ command,
      [],
      ''ERROR OUTPUT:'',
      ''```'',
      errorOutput,
      ''```'',
      [],
      ''YOUR TASK:'',
      ''1. Identify the error from the output'',
      ''2. Fix ONLY the broken file(s)'',
      ''3. Respond with the FIXED files using this format:'',
      [],
      ''EXPLANATION:'',
      ''Brief description of what you fixed and why'',
      [],
      ''FILE: filename.ext'',
      ''```'',
      ''complete fixed file content'',
      ''```'',
      [],
      ''Remember: Output ONLY the files that need fixing. Use the FILE: format.'']"

subsection \<open>One attempt\<close>

text \<open>
  \<^verbatim>\<open>resolve({ success: !error,\<close>
  \<^verbatim>\<open>          output: stdout || stderr || (error ? error.message : ''), error: !!error });\<close>
\<close>

definition run_success :: "exec_result \<Rightarrow> bool" where
  "run_success r \<longleftrightarrow> error r = None"

definition run_output :: "exec_result \<Rightarrow> string" where
  "run_output r =
     (if stdout r \<noteq> [] then stdout r
      else if stderr r \<noteq> [] then stderr r
      else (case error r of None \<Rightarrow> [] | Some m \<Rightarrow> m))"

text \<open>
  The loop over the matches of \<open>fileRegex\<close> in the provider's answer: an accepted edit is
  written to the store, and its path joins \<open>fixedFiles\<close> unless the write throws.  \<open>k\<close>
  counts the writes of the attempt.  The result is \<open>fixedFiles\<close> and the edits written.
\<close>

fun write_fixes ::
  "env \<Rightarrow> nat \<Rightarrow> string \<Rightarrow> nat \<Rightarrow> mstate list \<Rightarrow> string list \<times> file_edit list" where
  "write_fixes e attempt project k [] = ([], [])"
| "write_fixes e attempt project k (st # sts) =
     (if accepted (file_edit_of st)
      then (if writeFile e attempt k project (file_edit_of st)
            then (case write_fixes e attempt project (Suc k) sts of
                    (fixedFiles, written) \<Rightarrow>
                      (filepath (file_edit_of st) # fixedFiles, file_edit_of st # written))
            else write_fixes e attempt project (Suc k) sts)
      else write_fixes e attempt project k sts)"

text \<open>
  The body of the \<open>for\<close> loop.  It ends the request with a response (\<open>Done\<close>) or goes on
  to the next attempt with the longer history (\<open>Again\<close>).  A throw inside the body
  reaches the \<open>catch\<close> of the handler, which answers with status 500, the message and the
  history so far; so does a throw of \<open>exec\<close> inside the promise of the run, which rejects
  the promise.
\<close>

datatype cycle = Done autofix_response | Again "fix_entry list"

definition typeError_substring :: string where
  "typeError_substring = ''Cannot read properties of null (reading 'substring')''"

definition analyze_and_fix ::
  "env \<Rightarrow> string \<Rightarrow> string list \<Rightarrow> string \<Rightarrow> nat \<Rightarrow> string \<Rightarrow> fix_entry list \<Rightarrow> trace
     \<Rightarrow> cycle \<times> trace" where
  "analyze_and_fix e project projectFiles command attempt errorOutput fixes tr =
     (case embedded (fileContents e attempt project projectFiles) of
        None \<Rightarrow> (Done (ServerError typeError_substring fixes), tr)
      | Some files \<Rightarrow>
          (let prompt = fixPrompt files command errorOutput;
               tr1 = tr\<lparr>prompts := prompts tr @ [prompt]\<rparr>
           in case callHF e attempt prompt of
                Inl msg \<Rightarrow> (Done (ServerError msg fixes), tr1)
              | Inr aiResponse \<Rightarrow>
                  (case exec_loop fileRegex 0 aiResponse of
                     None \<Rightarrow> (Done NoResponse, tr1)
                   | Some matches \<Rightarrow>
                       (case write_fixes e attempt project 0 matches of
                          (fixedFiles, written) \<Rightarrow>
                            (let explanation = explanation_of aiResponse;
                                 tr2 = tr1\<lparr>writes := writes tr1 @ written\<rparr>
                             in if fixedFiles \<noteq> []
                                then (Again (fixes @
                                        [FixApplied attempt
                                           (if explanation \<noteq> [] then explanation
                                            else ''Fixed the error'')
                                           fixedFiles]), tr2)
                                else (Done (Exhausted (fixes @
                                        [FixNone attempt (take 500 aiResponse)])), tr2))))))"

definition run_attempt ::
  "env \<Rightarrow> string \<Rightarrow> string list \<Rightarrow> string \<Rightarrow> nat \<Rightarrow> fix_entry list \<Rightarrow> trace
     \<Rightarrow> cycle \<times> trace" where
  "run_attempt e project projectFiles command attempt fixes tr =
     (let tr1 = tr\<lparr>runs := runs tr @ [command]\<rparr>
      in case exec e attempt command of
           Inl msg \<Rightarrow> (Done (ServerError msg fixes), tr1)
         | Inr output \<Rightarrow>
             if run_success output
             then (Done (Succeeded (fixes @ [FixSuccess attempt (run_output output)])
                           (run_output output)), tr1)
             else analyze_and_fix e project projectFiles command attempt (run_output output)
                    (fixes @ [FixError attempt (run_output output)]) tr1)"

subsection \<open>The loop and the handler\<close>

text \<open>
  \<^verbatim>\<open>for (let attempt = 1; attempt <= maxAttempts; attempt++) { ... }\<close>
  \<^verbatim>\<open>return res.json({ success: false, message: ..., fixes });\<close>
\<close>

function auto_fix_loop ::
  "env \<Rightarrow> string \<Rightarrow> string list \<Rightarrow> string \<Rightarrow> nat \<Rightarrow> fix_entry list \<Rightarrow> trace
     \<Rightarrow> autofix_response \<times> trace" where
  "auto_fix_loop e project projectFiles command attempt fixes tr =
     (if attempt \<le> maxAttempts
      then (case run_attempt e project projectFiles command attempt fixes tr of
              (Done response, tr') \<Rightarrow> (response, tr')
            | (Again fixes', tr') \<Rightarrow>
                auto_fix_loop e project projectFiles command (Suc attempt) fixes' tr')
      else (Exhausted fixes, tr))"
  by pat_completeness auto
termination
  by (relation "measure (\<lambda>(e, project, projectFiles, command, attempt, fixes, tr).
                  Suc maxAttempts - attempt)") auto

text \<open>The body of the request: \<open>{ project, runCommand }\<close>.\<close>

record autofix_request =
  project :: "string option"
  runCommand :: "string option"

definition auto_fix :: "env \<Rightarrow> autofix_request \<Rightarrow> autofix_response \<times> trace" where
  "auto_fix e req =
     (case project req of
        None \<Rightarrow> (ProjectRequired, no_trace)
      | Some p \<Rightarrow>
          if p = [] then (ProjectRequired, no_trace)
          else (case getAllProjectFiles e p of
                  Inl msg \<Rightarrow> (ServerError msg [], no_trace)
                | Inr projectFiles \<Rightarrow>
                    (case choose_command (runCommand req) projectFiles of
                       None \<Rightarrow> (Abandoned [], no_trace)
                     | Some command \<Rightarrow>
                         auto_fix_loop e p projectFiles command 1 [] no_trace)))"

section \<open>The chat action dispatcher: \<open>POST /api/ai/chat\<close>\<close>

text \<open>
  \<^verbatim>\<open>/delete\s+(?:the\s+)?(?:file\s+)?["\']?([^\s"']+\.\w+)["\']?/i\<close>
\<close>

definition deleteRegex :: regex where
  "deleteRegex = seq
     [LitI ''delete'', Plus (Atom is_space),
      Opt (Seq (LitI ''the'') (Plus (Atom is_space))),
      Opt (Seq (LitI ''file'') (Plus (Atom is_space))),
      Opt (Atom is_quote),
      Group 1 (seq [Plus (Atom target_char), Chr CHR ''.'', Plus (Atom is_word)]),
      Opt (Atom is_quote)]"

text \<open>
  \<^verbatim>\<open>/(?:read|show|open|view|display)\s+(?:the\s+)?(?:contents?\s+(?:of\s+)?)?\<close>
  \<^verbatim>\<open>(?:file\s+)?["\']?([^\s"']+\.\w+)["\']?/i\<close>
\<close>

fun alts :: "regex list \<Rightarrow> regex" where
  "alts [] = Atom (\<lambda>c. False)"
| "alts [r] = r"
| "alts (r # rs) = Alt r (alts rs)"

definition readRegex :: regex where
  "readRegex = seq
     [alts [LitI ''read'', LitI ''show'', LitI ''open'', LitI ''view'', LitI ''display''],
      Plus (Atom is_space),
      Opt (Seq (LitI ''the'') (Plus (Atom is_space))),
      Opt (seq [LitI ''content'', Opt (ChrI CHR ''s''), Plus (Atom is_space),
                Opt (Seq (LitI ''of'') (Plus (Atom is_space)))]),
      Opt (Seq (LitI ''file'') (Plus (Atom is_space))),
      Opt (Atom is_quote),
      Group 1 (seq [Plus (Atom target_char), Chr CHR ''.'', Plus (Atom is_word)]),
      Opt (Atom is_quote)]"

text \<open>
  \<^verbatim>\<open>/create\s+(?:a\s+)?(?:an\s+)?(?:new\s+)?(?:file\s+)?(?:called\s+)?(?:named\s+)?["\']?\<close>
  \<^verbatim>\<open>([a-zA-Z0-9_\-\.\/]+\.(html|htm|js|jsx|ts|tsx|css|scss|py|java|json|md|txt|xml|yml|yaml))\<close>
  \<^verbatim>\<open>["\']?/i\<close>
\<close>

definition simpleCreateRegex :: regex where
  "simpleCreateRegex = seq
     [LitI ''create'', Plus (Atom is_space),
      Opt (Seq (LitI ''a'') (Plus (Atom is_space))),
      Opt (Seq (LitI ''an'') (Plus (Atom is_space))),
      Opt (Seq (LitI ''new'') (Plus (Atom is_space))),
      Opt (Seq (LitI ''file'') (Plus (Atom is_space))),
      Opt (Seq (LitI ''called'') (Plus (Atom is_space))),
      Opt (Seq (LitI ''named'') (Plus (Atom is_space))),
      Opt (Atom is_quote),
      Group 1 (seq [Plus (Atom name_char), Chr CHR ''.'',
                    Group 2 (alts [LitI ''html'', LitI ''htm'', LitI ''js'', LitI ''jsx'',
                                   LitI ''ts'', LitI ''tsx'', LitI ''css'', LitI ''scss'',
                                   LitI ''py'', LitI ''java'', LitI ''json'', LitI ''md'',
                                   LitI ''txt'', LitI ''xml'', LitI ''yml'', LitI ''yaml''])]),
      Opt (Atom is_quote)]"

text \<open>The body of the request: \<open>{ prompt, code, filename, project, image }\<close>.\<close>

record chat_request =
  chat_prompt :: "string option"
  chat_code :: "string option"
  chat_filename :: "string option"
  chat_project :: "string option"
  chat_image :: "string option"

text \<open>A row of the chat history, \<open>{ user, ai, timestamp }\<close>, without the time.\<close>

record chat_turn =
  user :: string
  ai :: string

text \<open>
  The texts that the handler saves to the chat history, without their decoration: the
  note on the files written (the explanation and the paths), the note on a starter
  template, or the provider's answer as it is.
\<close>

datatype chat_text =
    FilesWritten string "string list"
  | TemplateCreated string
  | Answer string

text \<open>
  The collaborators of the handler: the content store and the completion provider.
  \<open>Inl\<close> is a thrown error with its message; \<open>saveChatHistory\<close> gives the message of the
  error when it throws.
\<close>

record chat_env =
  loadChatHistory :: "string option \<Rightarrow> string + chat_turn list"
  listProjectFiles :: "string \<Rightarrow> string + string list"
  askHF :: "string \<Rightarrow> string + string"
  saveChatHistory :: "string option \<Rightarrow> string \<Rightarrow> chat_text \<Rightarrow> string option"

text \<open>
  Long constant texts of the source, which the handler is modelled for whatever they
  are: the system prompt for a file operation and the one for a question, each built
  around the instruction and the context, and the starter file of
  \<open>generateFileTemplate(filepath, ext, prompt)\<close>.
\<close>

record chat_texts =
  fileOperationPrompt :: "string \<Rightarrow> string \<Rightarrow> string"
  questionPrompt :: "string \<Rightarrow> string \<Rightarrow> string"
  generateFileTemplate :: "string \<Rightarrow> string \<Rightarrow> string \<Rightarrow> string"

text \<open>
  The responses, one constructor for each \<open>return\<close>: status 400 \<open>Prompt required\<close>; the
  request to create or select a project first; the actions \<open>delete_file\<close>, \<open>read_file\<close>,
  \<open>auto_fix\<close>, \<open>write_file\<close> and \<open>write_multiple_files\<close> with their fields; the plain
  answer of the provider; status 500 with the text of the \<open>catch\<close>.  \<open>ChatNoResponse\<close>
  stands for a handler that never answers.
\<close>

datatype chat_response =
    PromptRequired
  | ProjectFirst
  | DeleteFile string
  | ReadFile string
  | StartAutoFix string
  | WriteFile string string
  | WriteMultipleFiles "file_edit list"
  | PlainResponse string
  | ChatError string
  | ChatNoResponse

text \<open>What a chat request has done: the prompts submitted to the provider, the turns saved.\<close>

record chat_trace =
  asked :: "string list"
  saved :: "(string \<times> chat_text) list"

definition no_chat :: chat_trace where
  "no_chat = \<lparr>asked = [], saved = []\<rparr>"

text \<open>
  \<^verbatim>\<open>if ((err.message || '').includes('HF_TOKEN')) ... 'HF_TOKEN missing. Set env variable.'\<close>
  \<^verbatim>\<open>... 'AI error: ' + (err.message || 'Unknown error')\<close>
\<close>

definition chat_error :: "string \<Rightarrow> chat_response" where
  "chat_error msg =
     (if js_includes msg ''HF_TOKEN'' then ChatError ''HF_TOKEN missing. Set env variable.''
      else ChatError (''AI error: '' @ (if msg = [] then ''Unknown error'' else msg)))"

definition isFixCommand :: "string \<Rightarrow> bool" where
  "isFixCommand lowerPrompt \<longleftrightarrow>
     js_includes lowerPrompt ''fix'' \<and>
     (js_includes lowerPrompt ''error'' \<or> js_includes lowerPrompt ''run''
      \<or> js_includes lowerPrompt ''execute'' \<or> js_includes lowerPrompt ''test''
      \<or> js_includes lowerPrompt ''console'')"

definition isFileOperation :: "string \<Rightarrow> bool" where
  "isFileOperation lowerPrompt \<longleftrightarrow>
     list_ex (js_includes lowerPrompt)
       [''create'', ''make'', ''write'', ''edit'', ''modify'', ''update'', ''add'', ''change'',
        ''fix'', ''implement'', ''build'', ''setup'', ''generate'']"

subsection \<open>The context of the prompt\<close>

text \<open>
  \<^verbatim>\<open>const recentHistory = chatHistory.slice(-5);\<close>
  \<^verbatim>\<open>`User: ${h.user}\nAI: ${h.ai.substring(0, 500)}${h.ai.length > 500 ? '...' : ''}`\<close>
\<close>

definition history_context :: "chat_turn list \<Rightarrow> string" where
  "history_context chatHistory =
     (if chatHistory = [] then []
      else [nl, nl] @ ''Recent conversation history:'' @ [nl]
           @ join [nl, nl]
               (map (\<lambda>h. ''User: '' @ user h @ [nl] @ ''AI: '' @ take 500 (ai h)
                          @ (if length (ai h) > 500 then ''...'' else []))
                  (drop (length chatHistory - 5) chatHistory)))"

definition project_context :: "chat_env \<Rightarrow> string option \<Rightarrow> string" where
  "project_context e proj =
     (case proj of
        None \<Rightarrow> []
      | Some p \<Rightarrow>
          if p = [] then []
          else (case listProjectFiles e p of
                  Inl msg \<Rightarrow> []
                | Inr projectFiles \<Rightarrow>
                    [nl, nl] @ ''Project: '' @ p @ [nl] @ ''Files in project:'' @ [nl] @ ''  ''
                    @ (if projectFiles \<noteq> [] then join ([nl] @ ''  '') (take 30 projectFiles)
                       else ''No files found'')
                    @ (if length projectFiles > 30 then [nl] @ ''  ... and more'' else [])))"

definition file_context :: "string option \<Rightarrow> string option \<Rightarrow> string" where
  "file_context code filename =
     (case (code, filename) of
        (Some c, Some f) \<Rightarrow>
          if c \<noteq> [] \<and> f \<noteq> []
          then [nl, nl] @ ''Currently open file: '' @ f @ [nl] @ ''File content:'' @ [nl]
               @ ''```'' @ [nl] @ take 5000 c @ [nl] @ ''```''
          else []
      | _ \<Rightarrow> [])"

subsection \<open>The handler\<close>

text \<open>\<open>filepath.split('.').pop().toLowerCase()\<close>\<close>

definition extension :: "string \<Rightarrow> string" where
  "extension path = toLowerCase (rev (takeWhile (\<lambda>c. c \<noteq> CHR ''.'') (rev path)))"

text \<open>
  The path of the handler from the load of the chat history on.  With an image in the
  request the handler reads the variable \<open>isCreateRequest\<close>, which is declared nowhere:
  the ReferenceError reaches the \<open>catch\<close> before the provider is called.
\<close>

definition referenceError :: string where
  "referenceError = ''isCreateRequest is not defined''"

definition chat_answer ::
  "chat_texts \<Rightarrow> chat_env \<Rightarrow> chat_request \<Rightarrow> string \<Rightarrow> chat_response \<times> chat_trace" where
  "chat_answer t e req prompt =
     (case loadChatHistory e (chat_project req) of
        Inl msg \<Rightarrow> (chat_error msg, no_chat)
      | Inr chatHistory \<Rightarrow>
          (let fileOp = isFileOperation (toLowerCase prompt);
               contextInfo = history_context chatHistory
                 @ project_context e (chat_project req)
                 @ file_context (chat_code req) (chat_filename req);
               systemPrompt = (if fileOp then fileOperationPrompt t prompt contextInfo
                               else questionPrompt t prompt contextInfo)
           in if truthy (chat_image req) then (chat_error referenceError, no_chat)
              else (case askHF e systemPrompt of
                      Inl msg \<Rightarrow> (chat_error msg, \<lparr>asked = [systemPrompt], saved = []\<rparr>)
                    | Inr aiResponse \<Rightarrow>
                        (case chat_files fileOp aiResponse of
                           None \<Rightarrow> (ChatNoResponse, \<lparr>asked = [systemPrompt], saved = []\<rparr>)
                         | Some files \<Rightarrow>
                             (let (response, note) =
                                (if files \<noteq> []
                                 then (if length files = 1
                                       then WriteFile (filepath (hd files)) (content (hd files))
                                       else WriteMultipleFiles files,
                                       FilesWritten (explanation_of aiResponse)
                                         (map filepath files))
                                 else (case match_first simpleCreateRegex prompt of
                                         Some st \<Rightarrow>
                                           if \<not> js_includes aiResponse ''```''
                                           then (WriteFile (group st 1)
                                                   (generateFileTemplate t (group st 1)
                                                      (extension (group st 1)) prompt),
                                                 TemplateCreated (group st 1))
                                           else (PlainResponse aiResponse, Answer aiResponse)
                                       | None \<Rightarrow> (PlainResponse aiResponse, Answer aiResponse)))
                              in case saveChatHistory e (chat_project req) prompt note of
                                   Some msg \<Rightarrow>
                                     (chat_error msg, \<lparr>asked = [systemPrompt], saved = []\<rparr>)
                                 | None \<Rightarrow>
                                     (response,
                                      \<lparr>asked = [systemPrompt], saved = [(prompt, note)]\<rparr>))))))"

text \<open>
  The handler from its start: the check of the prompt, the guard for a request without a
  project, and the intents that are answered without the provider, in the order of the
  source.
\<close>

definition ai_chat ::
  "chat_texts \<Rightarrow> chat_env \<Rightarrow> chat_request \<Rightarrow> chat_response \<times> chat_trace" where
  "ai_chat t e req =
     (case chat_prompt req of
        None \<Rightarrow> (PromptRequired, no_chat)
      | Some prompt \<Rightarrow>
          if prompt = [] then (PromptRequired, no_chat)
          else if \<not> truthy (chat_project req)
                  \<and> (js_includes (toLowerCase prompt) ''create''
                       \<or> js_includes (toLowerCase prompt) ''file''
                       \<or> js_includes (toLowerCase prompt) ''edit'')
          then (ProjectFirst, no_chat)
          else (case match_first deleteRegex prompt of
                  Some deleteMatch \<Rightarrow> (DeleteFile (group deleteMatch 1), no_chat)
                | None \<Rightarrow>
                    (case match_first readRegex prompt of
                       Some readMatch \<Rightarrow> (ReadFile (group readMatch 1), no_chat)
                     | None \<Rightarrow>
                         if isFixCommand (toLowerCase prompt) \<and> truthy (chat_project req)
                         then (StartAutoFix (case chat_project req of None \<Rightarrow> [] | Some p \<Rightarrow> p),
                               no_chat)
                         else chat_answer t e req prompt)))"

section \<open>The terminal endpoints\<close>

text \<open>
  A value of a request body that the handlers test for truth and compare with \<open>===\<close>:
  a number, a string, or nothing (\<open>undefined\<close>, \<open>null\<close>).  A number is an integer of
  magnitude below \<open>2^53\<close>, which a request carries exactly and a template literal prints
  as its decimal numeral.
\<close>

datatype jsval = Undefined | Num int | Str string

fun truthy_val :: "jsval \<Rightarrow> bool" where
  "truthy_val Undefined = False"
| "truthy_val (Num n) = (n \<noteq> 0)"
| "truthy_val (Str s) = (s \<noteq> [])"

text \<open>The decimal numeral of a number, as a template literal prints it.\<close>

fun decimal :: "nat \<Rightarrow> string" where
  "decimal n =
     (if n < 10 then [char_of (48 + n)]
      else decimal (n div 10) @ [char_of (48 + n mod 10)])"

fun print_val :: "jsval \<Rightarrow> string" where
  "print_val Undefined = ''undefined''"
| "print_val (Num n) = (if n < 0 then ''-'' @ decimal (nat (- n)) else decimal (nat n))"
| "print_val (Str s) = s"

text \<open>
  The two maps of the server, \<open>previewServers\<close> and \<open>runningProcesses\<close>.  A \<open>Map\<close> keeps
  its keys in the order of insertion; \<open>set\<close> is \<^const>\<open>obj_put\<close>.  Of a child process the
  model keeps its \<open>pid\<close> (\<open>undefined\<close> when the spawn failed), of a preview server its
  port.
\<close>

record child =
  pid :: "nat option"

record preview =
  port :: nat

record server_state =
  previewServers :: "(string \<times> preview) list"
  runningProcesses :: "(string \<times> child) list"

definition initial_state :: server_state where
  "initial_state = \<lparr>previewServers = [], runningProcesses = []\<rparr>"

definition map_has :: "(string \<times> 'v) list \<Rightarrow> string \<Rightarrow> bool" where
  "map_has m k \<longleftrightarrow> list_ex (\<lambda>p. fst p = k) m"

definition map_delete :: "(string \<times> 'v) list \<Rightarrow> string \<Rightarrow> (string \<times> 'v) list" where
  "map_delete m k = filter (\<lambda>p. fst p \<noteq> k) m"

subsection \<open>\<open>POST /api/terminal/run\<close>, the synchronous branch\<close>

text \<open>\<^verbatim>\<open>/\d{4,5}$/\<close>\<close>

definition portRegex :: regex where
  "portRegex = seq
     [Atom is_digit, Atom is_digit, Atom is_digit, Atom is_digit, Opt (Atom is_digit), Eol]"

definition isServerCommand :: "string \<Rightarrow> bool" where
  "isServerCommand command \<longleftrightarrow>
     js_includes command ''http.server'' \<or> js_includes command ''serve''
     \<or> (js_includes command ''run'' \<and> js_includes command ''app.py'')"

text \<open>
  The responses of the endpoint: status 500 with \<open>err.message\<close> from the \<open>catch\<close>;
  \<open>{ output, error: true }\<close> or \<open>{ output }\<close> of a command that ran to its end; and, for
  a server command, the spawn of the child with the command and the port that the
  handler computed.  What follows the spawn (the timer that registers the child, its
  exit) arrives as events of the server, see \<open>event\<close> below.
\<close>

datatype run_response =
    RunThrew string
  | RunOutput string bool
  | RunBackground string string

text \<open>
  The command of a request: missing, \<open>null\<close>, or a string.  On the first two
  \<open>command.includes\<close> throws a TypeError, with a text for each.  A command that is a
  JSON value of another type (a number, an array, an object) is not modelled.
\<close>

datatype command_value = NoCommand | NullCommand | Command string

definition typeError_undefined :: string where
  "typeError_undefined = ''Cannot read properties of undefined (reading 'includes')''"

definition typeError_null :: string where
  "typeError_null = ''Cannot read properties of null (reading 'includes')''"

text \<open>
  \<^verbatim>\<open>if (error) { const output = stderr || stdout || error.message;\<close>
  \<^verbatim>\<open>             return res.json({ output, error: true }); }\<close>
  \<^verbatim>\<open>res.json({ output: stdout || stderr || 'Command executed successfully' });\<close>
\<close>

definition sync_response :: "exec_result \<Rightarrow> run_response" where
  "sync_response r =
     (case error r of
        Some message \<Rightarrow>
          RunOutput (if stderr r \<noteq> [] then stderr r
                     else if stdout r \<noteq> [] then stdout r
                     else message) True
      | None \<Rightarrow>
          RunOutput (if stdout r \<noteq> [] then stdout r
                     else if stderr r \<noteq> [] then stderr r
                     else ''Command executed successfully'') False)"

text \<open>\<open>command.replace(/^python/, 'py')\<close>\<close>

definition replace_python :: "string \<Rightarrow> string" where
  "replace_python command =
     (if startsWith command ''python'' then ''py'' @ drop 6 command else command)"

text \<open>\<open>match[0]\<close>: the part of the subject between the start and the end of a match.\<close>

definition matched :: "string \<Rightarrow> nat \<times> mstate \<Rightarrow> string" where
  "matched s m = take (fst (snd m) - fst m) (drop (fst m) s)"

text \<open>
  The handler; \<open>run\<close> gives the outcome of the call of \<open>exec\<close> on a command.  Every throw
  in the handler, of \<open>command.includes\<close> or of \<open>exec\<close>, reaches its \<open>catch\<close>, which
  answers with status 500 and the message.  In the branch of a server command only the
  throw of \<open>exec\<close> counts: the child has no callback.
\<close>

definition server_cmd :: "string \<Rightarrow> string" where
  "server_cmd command =
     (if js_includes command ''python'' then replace_python command else command)"

definition sync_cmd :: "string \<Rightarrow> string" where
  "sync_cmd command =
     (if startsWith command ''python '' then replace_python command else command)"

definition terminal_run ::
  "(string \<Rightarrow> string + exec_result) \<Rightarrow> command_value \<Rightarrow> run_response" where
  "terminal_run run cv =
     (case cv of
        NoCommand \<Rightarrow> RunThrew typeError_undefined
      | NullCommand \<Rightarrow> RunThrew typeError_null
      | Command command \<Rightarrow>
          if isServerCommand command
          then (case run (server_cmd command) of
                  Inl msg \<Rightarrow> RunThrew msg
                | Inr r \<Rightarrow>
                    RunBackground (server_cmd command)
                      (case exec_from portRegex 0 command of
                         None \<Rightarrow> ''8000''
                       | Some m \<Rightarrow> matched command m))
          else (case run (sync_cmd command) of
                  Inl msg \<Rightarrow> RunThrew msg
                | Inr r \<Rightarrow> sync_response r))"

subsection \<open>\<open>POST /api/terminal/host\<close> and \<open>POST /api/terminal/stop\<close>\<close>

text \<open>
  The responses: status 400 \<open>Project required\<close>; of \<open>host\<close>, \<open>success: false\<close> with the
  message that the preview server is not available with database storage; of \<open>stop\<close>,
  \<open>success: true\<close> with the port of the server that was closed, or \<open>success: false\<close>
  with the message \<open>No preview server running for this project\<close>.
\<close>

datatype preview_response =
    PreviewProjectRequired
  | PreviewNotAvailable
  | PreviewStopped nat
  | NoPreviewRunning

fun preview_success :: "preview_response \<Rightarrow> bool option" where
  "preview_success PreviewProjectRequired = None"
| "preview_success PreviewNotAvailable = Some False"
| "preview_success (PreviewStopped n) = Some True"
| "preview_success NoPreviewRunning = Some False"

text \<open>
  \<open>host\<close> returns before the code that started a server, which stands in a comment since
  the files moved to the database.
\<close>

definition terminal_host ::
  "server_state \<Rightarrow> string option \<Rightarrow> jsval \<Rightarrow> preview_response \<times> server_state" where
  "terminal_host st proj requestedPort =
     (if \<not> truthy proj then (PreviewProjectRequired, st)
      else (PreviewNotAvailable, st))"

definition terminal_stop :: "server_state \<Rightarrow> string option \<Rightarrow> preview_response \<times> server_state" where
  "terminal_stop st proj =
     (case proj of
        None \<Rightarrow> (PreviewProjectRequired, st)
      | Some p \<Rightarrow>
          if p = [] then (PreviewProjectRequired, st)
          else (case map_of (previewServers st) p of
                  Some server \<Rightarrow>
                    (PreviewStopped (port server),
                     st\<lparr>previewServers := map_delete (previewServers st) p\<rparr>)
                | None \<Rightarrow> (NoPreviewRunning, st)))"

subsection \<open>\<open>POST /api/terminal/kill\<close>\<close>

text \<open>
  The responses: status 400 \<open>PID required\<close>; \<open>success: false\<close> with the error text;
  \<open>success: true\<close>; status 500 with \<open>err.message\<close> from the \<open>catch\<close>.
\<close>

datatype kill_response =
    PidRequired
  | KillFailed string
  | Killed
  | KillThrew string

fun kill_success :: "kill_response \<Rightarrow> bool option" where
  "kill_success PidRequired = None"
| "kill_success (KillFailed msg) = Some False"
| "kill_success Killed = Some True"
| "kill_success (KillThrew msg) = None"

text \<open>\<open>process.pid === pid\<close>: the request names the child by the number of its \<open>pid\<close>.\<close>

definition same_pid :: "child \<Rightarrow> jsval \<Rightarrow> bool" where
  "same_pid c v \<longleftrightarrow> (case pid c of None \<Rightarrow> False | Some n \<Rightarrow> v = Num (int n))"

text \<open>
  The handler; \<open>run\<close> gives the outcome of \<open>exec(`taskkill /F /PID ${pid}`, ...)\<close>, and a
  throw of \<open>exec\<close> reaches the \<open>catch\<close>.
  \<^verbatim>\<open>if (error) { return res.json({ success: false,\<close>
  \<^verbatim>\<open>    error: `Could not kill process: ${stderr || error.message}` }); }\<close>
  \<^verbatim>\<open>for (const [key, process] of runningProcesses.entries()) {\<close>
  \<^verbatim>\<open>    if (process.pid === pid) { process.kill(); runningProcesses.delete(key); } }\<close>
\<close>

definition terminal_kill ::
  "(string \<Rightarrow> string + exec_result) \<Rightarrow> server_state \<Rightarrow> jsval
     \<Rightarrow> kill_response \<times> server_state" where
  "terminal_kill run st v =
     (if \<not> truthy_val v then (PidRequired, st)
      else (case run (''taskkill /F /PID '' @ print_val v) of
              Inl msg \<Rightarrow> (KillThrew msg, st)
            | Inr r \<Rightarrow>
                (case error r of
                   Some message \<Rightarrow>
                     (KillFailed (''Could not kill process: ''
                                   @ (if stderr r \<noteq> [] then stderr r else message)), st)
                 | None \<Rightarrow>
                     (Killed,
                      st\<lparr>runningProcesses :=
                           filter (\<lambda>p. \<not> same_pid (snd p) v) (runningProcesses st)\<rparr>))))"

subsection \<open>The states that the server reaches\<close>

text \<open>
  What changes the two maps: the timer of a server command that finds \<open>child.pid\<close> and
  registers the child under \<open>project || 'default'\<close>; the exit of such a child, which
  deletes that key; and the requests to \<open>host\<close>, \<open>stop\<close> and \<open>kill\<close> (a \<open>kill\<close> with the
  outcome of its \<open>taskkill\<close>).
\<close>

datatype event =
    Registered string child
  | Exited string
  | HostRequest "string option" jsval
  | StopRequest "string option"
  | KillRequest jsval "string + exec_result"

fun step :: "server_state \<Rightarrow> event \<Rightarrow> server_state" where
  "step st (Registered key c) =
     st\<lparr>runningProcesses := obj_put (runningProcesses st) key c\<rparr>"
| "step st (Exited key) =
     st\<lparr>runningProcesses := map_delete (runningProcesses st) key\<rparr>"
| "step st (HostRequest proj requestedPort) = snd (terminal_host st proj requestedPort)"
| "step st (StopRequest proj) = snd (terminal_stop st proj)"
| "step st (KillRequest v outcome) = snd (terminal_kill (\<lambda>command. outcome) st v)"

definition reach :: "event list \<Rightarrow> server_state" where
  "reach events = foldl step initial_state events"

section \<open>Well-formed answers\<close>








section \<open>Auxiliary notions for the proofs\<close>

text \<open>
  A syntactic check that a pattern cannot match the empty string: every match of such a
  pattern moves \<open>lastIndex\<close> forward, so the \<open>exec\<close> loop over it ends.
\<close>

fun consuming :: "regex \<Rightarrow> bool" where
  "consuming (Atom p) = True"
| "consuming (Seq a b) = (consuming a \<or> consuming b)"
| "consuming (Alt a b) = (consuming a \<and> consuming b)"
| "consuming (Group n r) = consuming r"
| "consuming r = False"

text \<open>
  The repair prompts of a request for project \<open>p\<close> with the files \<open>projectFiles\<close> and
  the command \<open>command\<close>: the prompt of an attempt from \<open>a0\<close> on whose run returned, built
  around the files that the attempt read and embedded.
\<close>

definition repair_prompt ::
  "env \<Rightarrow> string \<Rightarrow> string list \<Rightarrow> string \<Rightarrow> nat \<Rightarrow> string \<Rightarrow> bool" where
  "repair_prompt e p projectFiles command a0 q \<longleftrightarrow>
     (\<exists>a out files. a0 \<le> a \<and> a \<le> maxAttempts \<and> exec e a command = Inr out
        \<and> embedded (fileContents e a p projectFiles) = Some files
        \<and> q = fixPrompt files command (run_output out))"

section \<open>Example inputs\<close>

text \<open>
  Concrete requests and environments on which the theorems are run.  \<open>demo_env\<close> is a
  project of the given files in which every read returns the text \<open>x = 1\<close>, every run of
  the command has the given outcome, the provider gives the same answer to every prompt,
  and every write succeeds.
\<close>

definition demo_request :: autofix_request where
  "demo_request = \<lparr>project = Some ''demo'', runCommand = None\<rparr>"

definition demo_env :: "string list \<Rightarrow> exec_result \<Rightarrow> string \<Rightarrow> env" where
  "demo_env files outcome answer =
     \<lparr>getAllProjectFiles = (\<lambda>p. Inr files),
      exec = (\<lambda>attempt command. Inr outcome),
      readFile = (\<lambda>attempt i p file. ReadText ''x = 1''),
      callHF = (\<lambda>attempt prompt. Inr answer),
      writeFile = (\<lambda>attempt k p edit. True)\<rparr>"

definition run_ok :: exec_result where
  "run_ok = \<lparr>error = None, stdout = ''hello'', stderr = []\<rparr>"

definition run_failed :: exec_result where
  "run_failed = \<lparr>error = Some ''Command failed: py app.py'', stdout = [],
                  stderr = ''NameError''\<rparr>"

text \<open>The message of an \<open>exec\<close> that refuses its command.\<close>

definition refused :: string where
  "refused = ''The argument 'command' must be a string without null bytes.''"

text \<open>
  A request with a run command that \<open>exec\<close> refuses (a NUL), in an environment whose
  \<open>exec\<close> throws on every command.
\<close>

definition refused_request :: autofix_request where
  "refused_request = \<lparr>project = Some ''demo'', runCommand = Some [CHR 0x00]\<rparr>"

definition refusing_env :: env where
  "refusing_env = (demo_env [''app.py''] run_ok ''No response.'')
     \<lparr>exec := (\<lambda>attempt command. Inl refused)\<rparr>"

text \<open>A project that holds a text file only: no rule finds a run command for it.\<close>

definition docs_env :: env where
  "docs_env = demo_env [''README.md''] run_ok ''No response.''"

text \<open>A project of twelve Python files whose program fails, and a provider without a fix.\<close>

definition twelve_files :: "string list" where
  "twelve_files =
     [''app.py'', ''b.py'', ''c.py'', ''d.py'', ''e.py'', ''f.py'', ''g.py'', ''h.py'',
      ''i.py'', ''j.py'', ''k.py'', ''l.py'']"

definition stuck_env :: env where
  "stuck_env = demo_env twelve_files run_failed ''I cannot fix this.''"

text \<open>
  The same project with a first file that is longer than 3000 code units.
\<close>

definition long_text :: string where
  "long_text = replicate 3005 CHR ''#''"

definition long_env :: env where
  "long_env =
     \<lparr>getAllProjectFiles = (\<lambda>p. Inr twelve_files),
      exec = (\<lambda>attempt command. Inr run_failed),
      readFile = (\<lambda>attempt i p file.
                    ReadText (if file = ''app.py'' then long_text else ''x = 1'')),
      callHF = (\<lambda>attempt prompt. Inr ''I cannot fix this.''),
      writeFile = (\<lambda>attempt k p edit. True)\<rparr>"

definition working_env :: env where
  "working_env = demo_env [''app.py'', ''requirements.txt''] run_ok ''No response.''"

text \<open>
  A command that fails after it has written to both streams, and a server with one
  background process.
\<close>

definition noisy_failure :: exec_result where
  "noisy_failure = \<lparr>error = Some ''Command failed: node build.js'', stdout = ''compiling'',
                     stderr = ''SyntaxError''\<rparr>"

definition noisy_run :: "string \<Rightarrow> string + exec_result" where
  "noisy_run command = Inr noisy_failure"

text \<open>An \<open>exec\<close> that refuses every command.\<close>

definition refusing_run :: "string \<Rightarrow> string + exec_result" where
  "refusing_run command = Inl refused"

definition busy_state :: server_state where
  "busy_state = reach [Registered ''demo'' \<lparr>pid = Some 4242\<rparr>]"

text \<open>
  A chat request with the instruction \<open>delete the file foo.txt\<close>, with and without a
  project, over a store without history and files and a provider without an answer.
\<close>

definition plain_texts :: chat_texts where
  "plain_texts =
     \<lparr>fileOperationPrompt = (\<lambda>prompt contextInfo. prompt @ contextInfo),
      questionPrompt = (\<lambda>prompt contextInfo. prompt @ contextInfo),
      generateFileTemplate = (\<lambda>path ext prompt. [])\<rparr>"

definition quiet_store :: chat_env where
  "quiet_store =
     \<lparr>loadChatHistory = (\<lambda>p. Inr []),
      listProjectFiles = (\<lambda>p. Inr []),
      askHF = (\<lambda>prompt. Inr ''No response.''),
      saveChatHistory = (\<lambda>p prompt note. None)\<rparr>"

definition delete_request :: chat_request where
  "delete_request =
     \<lparr>chat_prompt = Some ''delete the file foo.txt'', chat_code = None, chat_filename = None,
      chat_project = Some ''demo'', chat_image = None\<rparr>"

definition delete_request_no_project :: chat_request where
  "delete_request_no_project = delete_request\<lparr>chat_project := None\<rparr>"

text \<open>
  An answer of the provider with two \<open>FILE:\<close> blocks, the second with a blank body.
\<close>

definition two_blocks :: string where
  "two_blocks = lines
     [''EXPLANATION:'', ''Fixed the import'', [],
      ''FILE: \"app.py\"'', ''```python'', ''import os'', ''```'', [],
      ''FILE: notes.txt'', ''```'', [], ''```'']"




section \<open>The matcher moves forward\<close>

text \<open>
  The equations of \<open>ms\<close> for \<open>*\<close> and \<open>*?\<close> are recursive without a guard, so they are
  used by hand only.
\<close>

declare ms.simps [simp del]

text \<open>A match ends at a later index of the same subject.\<close>

lemma ms_advance:
  "st' \<in> set (ms r st) \<Longrightarrow>
     \<exists>k. k \<le> length (rest_of st) \<and> rest_of st' = drop k (rest_of st) \<and> fst st' = fst st + k"
proof (induction r st arbitrary: st' rule: ms.induct)
  case (1 st)
  then show ?case by (auto simp: ms.simps intro: exI [of _ 0])
next
  case (2 p st)
  then show ?case
    by (cases "rest_of st") (auto simp: ms.simps rest_of_def split: if_splits intro!: exI [of _ 1])
next
  case (3 a b st)
  from "3.prems" obtain x where x: "x \<in> set (ms a st)" and s: "st' \<in> set (ms b x)"
    by (auto simp: ms.simps)
  from "3.IH"(1) [OF x] obtain k where k: "k \<le> length (rest_of st)"
    "rest_of x = drop k (rest_of st)" "fst x = fst st + k" by blast
  from "3.IH"(2) [OF x s] obtain j where j: "j \<le> length (rest_of x)"
    "rest_of st' = drop j (rest_of x)" "fst st' = fst x + j" by blast
  show ?case
    using k j by (intro exI [of _ "k + j"]) (auto simp: add.commute)
next
  case (4 a b st)
  from "4.prems" have "st' \<in> set (ms a st) \<or> st' \<in> set (ms b st)"
    by (simp add: ms.simps)
  then show ?case using "4.IH" by blast
next
  case (5 r st)
  from "5.prems" consider "st' = st"
    | x where "x \<in> set (ms r st)" "length (rest_of x) < length (rest_of st)"
        "st' \<in> set (ms (Star r) x)"
    by (subst (asm) ms.simps) (auto split: if_splits)
  then show ?case
  proof cases
    case 1
    then show ?thesis by (auto intro: exI [of _ 0])
  next
    case 2
    from "5.IH"(1) [OF 2(1)] obtain k where k: "k \<le> length (rest_of st)"
      "rest_of x = drop k (rest_of st)" "fst x = fst st + k" by blast
    from "5.IH"(2) [OF 2(1) 2(2) 2(3)] obtain j where j: "j \<le> length (rest_of x)"
      "rest_of st' = drop j (rest_of x)" "fst st' = fst x + j" by blast
    show ?thesis
      using k j by (intro exI [of _ "k + j"]) (auto simp: add.commute)
  qed
next
  case (6 r st)
  from "6.prems" consider "st' = st"
    | x where "x \<in> set (ms r st)" "length (rest_of x) < length (rest_of st)"
        "st' \<in> set (ms (Lazy r) x)"
    by (subst (asm) ms.simps) (auto split: if_splits)
  then show ?case
  proof cases
    case 1
    then show ?thesis by (auto intro: exI [of _ 0])
  next
    case 2
    from "6.IH"(1) [OF 2(1)] obtain k where k: "k \<le> length (rest_of st)"
      "rest_of x = drop k (rest_of st)" "fst x = fst st + k" by blast
    from "6.IH"(2) [OF 2(1) 2(2) 2(3)] obtain j where j: "j \<le> length (rest_of x)"
      "rest_of st' = drop j (rest_of x)" "fst st' = fst x + j" by blast
    show ?thesis
      using k j by (intro exI [of _ "k + j"]) (auto simp: add.commute)
  qed
next
  case (7 n r st)
  from "7.prems" obtain x where x: "x \<in> set (ms r st)"
    and s: "rest_of st' = rest_of x" "fst st' = fst x"
    by (auto simp: ms.simps rest_of_def)
  from "7.IH" [OF x] s show ?case by simp
next
  case (8 st)
  then show ?case by (auto simp: ms.simps split: if_splits intro: exI [of _ 0])
next
  case (9 st)
  then show ?case by (auto simp: ms.simps split: if_splits intro: exI [of _ 0])
next
  case (10 r st)
  then show ?case
    by (auto simp: ms.simps rest_of_def split: list.splits intro: exI [of _ 0])
qed

lemma ms_length: "st' \<in> set (ms r st) \<Longrightarrow> length (rest_of st') \<le> length (rest_of st)"
  using ms_advance [of st' r st] by auto

lemma ms_consuming:
  "consuming r \<Longrightarrow> st' \<in> set (ms r st) \<Longrightarrow> length (rest_of st') < length (rest_of st)"
proof (induction r arbitrary: st st')
  case (Atom p)
  then show ?case
    by (cases "rest_of st") (auto simp: ms.simps rest_of_def split: if_splits)
next
  case (Seq a b)
  from Seq.prems(2) obtain x where x: "x \<in> set (ms a st)" and s: "st' \<in> set (ms b x)"
    by (auto simp: ms.simps)
  from Seq.prems(1) have "consuming a \<or> consuming b" by simp
  then show ?case
  proof
    assume "consuming a"
    from Seq.IH(1) [OF this x] ms_length [OF s] show ?thesis by simp
  next
    assume "consuming b"
    from Seq.IH(2) [OF this s] ms_length [OF x] show ?thesis by simp
  qed
next
  case (Alt a b)
  from Alt.prems have "st' \<in> set (ms a st) \<or> st' \<in> set (ms b st)"
    and "consuming a" and "consuming b"
    by (simp_all add: ms.simps)
  then show ?case using Alt.IH by blast
next
  case (Group n r)
  from Group.prems(2) obtain x where x: "x \<in> set (ms r st)" and s: "rest_of st' = rest_of x"
    by (auto simp: ms.simps rest_of_def)
  from Group.IH [OF _ x] Group.prems(1) s show ?case by simp
qed simp_all

lemma match_at_consuming:
  "consuming r \<Longrightarrow> match_at r st = Some st' \<Longrightarrow> length (rest_of st') < length (rest_of st)"
  by (rule ms_consuming [of r st' st]) (auto simp: match_at_def split: list.splits)

lemma exec_from_consuming:
  "consuming r \<Longrightarrow> exec_from r i s = Some (start, st) \<Longrightarrow> length (rest_of st) < length s"
proof (induction s arbitrary: i)
  case Nil
  then show ?case by (auto dest: match_at_consuming simp: rest_of_def)
next
  case (Cons c cs)
  show ?case
  proof (cases "match_at r (i, c # cs, [])")
    case None
    with Cons.prems have "exec_from r (Suc i) cs = Some (start, st)" by simp
    from Cons.IH [OF Cons.prems(1) this] show ?thesis by simp
  next
    case (Some x)
    with Cons.prems have "x = st" by simp
    with match_at_consuming [OF Cons.prems(1) Some] show ?thesis by (simp add: rest_of_def)
  qed
qed

lemma exec_loop_total: "consuming r \<Longrightarrow> \<exists>sts. exec_loop r i s = Some sts"
proof (induction r i s rule: exec_loop.induct)
  case (1 r i s)
  show ?case
  proof (cases "exec_from r i s")
    case None
    then show ?thesis by (subst exec_loop.simps) simp
  next
    case (Some a)
    obtain start st where a: "a = (start, st)" by (cases a)
    from exec_from_consuming [OF "1.prems"] Some a
    have lt: "length (rest_of st) < length s" by simp
    from "1.IH" [OF Some [unfolded a] refl lt "1.prems"]
    obtain sts where "exec_loop r (fst st) (rest_of st) = Some sts" by blast
    with Some a lt show ?thesis by (subst exec_loop.simps) simp
  qed
qed

lemma consuming_seq_hd: "consuming r \<Longrightarrow> consuming (seq (r # rs))"
  by simp

lemma consuming_LitI: "s \<noteq> [] \<Longrightarrow> consuming (LitI s)"
  by (cases s) (simp_all add: LitI_def ChrI_def)

lemma consuming_fileRegex: "consuming fileRegex"
  by (simp add: fileRegex_def consuming_LitI)

lemma consuming_altRegex1: "consuming altRegex1"
  by (simp add: altRegex1_def Plus_def)

lemma consuming_createRegex: "consuming createRegex"
  by (simp add: createRegex_def consuming_LitI)

section \<open>The auto-repair loop\<close>

declare auto_fix_loop.simps [simp del]

lemma write_fixes_none:
  "filter accepted (map file_edit_of sts) = [] \<Longrightarrow> write_fixes e attempt p k sts = ([], [])"
  by (induction sts) (auto split: if_splits)

lemma exec_loop_fileRegex: "\<exists>sts. exec_loop fileRegex i s = Some sts"
  by (rule exec_loop_total [OF consuming_fileRegex])

lemma file_blocks_total: "\<exists>fs. file_blocks s = Some fs"
  using exec_loop_fileRegex [of 0 s] by (auto simp: file_blocks_def)

lemma analyze_and_fix_cases:
  assumes "analyze_and_fix e p files cmd a out hist tr = (c, tr')"
  shows "runs tr' = runs tr \<and> c \<noteq> Done NoResponse \<and> c \<noteq> Done ProjectRequired
         \<and> (\<exists>more. (case c of Done r \<Rightarrow> fixes_of r | Again fs \<Rightarrow> Some fs) = Some (hist @ more)
               \<and> (\<forall>f\<in>set more. attempt_of f = a))"
proof (cases "embedded (fileContents e a p files)")
  case None
  with assms show ?thesis by (auto simp: analyze_and_fix_def)
next
  case (Some emb)
  note emb = this
  show ?thesis
  proof (cases "callHF e a (fixPrompt emb cmd out)")
    case (Inl msg)
    with assms emb show ?thesis by (auto simp: analyze_and_fix_def Let_def)
  next
    case (Inr ai)
    obtain sts where sts: "exec_loop fileRegex 0 ai = Some sts"
      using exec_loop_fileRegex [of 0 ai] by blast
    obtain ff written where w: "write_fixes e a p 0 sts = (ff, written)"
      by (cases "write_fixes e a p 0 sts")
    show ?thesis
    proof (cases "ff = []")
      case True
      with assms emb Inr sts w show ?thesis
        by (auto simp: analyze_and_fix_def Let_def)
    next
      case False
      with assms emb Inr sts w show ?thesis
        by (auto simp: analyze_and_fix_def Let_def)
    qed
  qed
qed

text \<open>
  One attempt hands the command to \<open>exec\<close> once.  It adds entries to the history exactly
  when \<open>exec\<close> returns, and only then can the loop go on.
\<close>

lemma run_attempt_cases:
  assumes "run_attempt e p files cmd a hist tr = (c, tr')"
  shows "runs tr' = runs tr @ [cmd] \<and> c \<noteq> Done NoResponse \<and> c \<noteq> Done ProjectRequired
         \<and> (\<exists>more. (case c of Done r \<Rightarrow> fixes_of r | Again fs \<Rightarrow> Some fs) = Some (hist @ more)
               \<and> (more \<noteq> [] \<longleftrightarrow> (\<exists>out. exec e a cmd = Inr out))
               \<and> (\<forall>f\<in>set more. attempt_of f = a))"
proof (cases "exec e a cmd")
  case (Inl msg)
  with assms show ?thesis
    by (auto simp: run_attempt_def Let_def)
next
  case (Inr out)
  note out = this
  show ?thesis
  proof (cases "run_success out")
    case True
    with assms out show ?thesis
      by (auto simp: run_attempt_def Let_def)
  next
    case False
    from False assms out
    have "analyze_and_fix e p files cmd a (run_output out) (hist @ [FixError a (run_output out)])
            (tr\<lparr>runs := runs tr @ [cmd]\<rparr>) = (c, tr')"
      by (simp add: run_attempt_def Let_def)
    from analyze_and_fix_cases [OF this]
    obtain more where m: "runs tr' = runs tr @ [cmd]" "c \<noteq> Done NoResponse"
      "c \<noteq> Done ProjectRequired"
      "(case c of Done r \<Rightarrow> fixes_of r | Again fs \<Rightarrow> Some fs)
         = Some ((hist @ [FixError a (run_output out)]) @ more)"
      "\<forall>f\<in>set more. attempt_of f = a"
      by auto
    show ?thesis
      using m out by (intro conjI exI [of _ "FixError a (run_output out) # more"]) auto
  qed
qed

lemma auto_fix_loop_inv:
  assumes "auto_fix_loop e p files cmd a hist tr = (r, tr')"
  shows "length (runs tr') \<le> length (runs tr) + (Suc maxAttempts - a)
         \<and> length (runs tr) \<le> length (runs tr')
         \<and> (a \<le> maxAttempts \<longrightarrow> length (runs tr) < length (runs tr'))
         \<and> r \<noteq> NoResponse \<and> r \<noteq> ProjectRequired
         \<and> (\<exists>more. fixes_of r = Some (hist @ more)
               \<and> (a \<le> maxAttempts \<longrightarrow> (more \<noteq> [] \<longleftrightarrow> (\<exists>out. exec e a cmd = Inr out)))
               \<and> (\<forall>f\<in>set more. a \<le> attempt_of f \<and> attempt_of f \<le> maxAttempts))"
  using assms
proof (induction e p files cmd a hist tr rule: auto_fix_loop.induct)
  case (1 e p files cmd a hist tr)
  show ?case
  proof (cases "a \<le> maxAttempts")
    case False
    with "1.prems" show ?thesis by (subst (asm) auto_fix_loop.simps) auto
  next
    case True
    obtain c tr1 where ra: "run_attempt e p files cmd a hist tr = (c, tr1)"
      by (cases "run_attempt e p files cmd a hist tr")
    from run_attempt_cases [OF ra]
    obtain more where m: "runs tr1 = runs tr @ [cmd]" "c \<noteq> Done NoResponse"
      "c \<noteq> Done ProjectRequired"
      "(case c of Done r \<Rightarrow> fixes_of r | Again fs \<Rightarrow> Some fs) = Some (hist @ more)"
      "more \<noteq> [] \<longleftrightarrow> (\<exists>out. exec e a cmd = Inr out)" "\<forall>f\<in>set more. attempt_of f = a"
      by auto
    show ?thesis
    proof (cases c)
      case (Done r1)
      with "1.prems" True ra have "r = r1" "tr' = tr1"
        by (subst (asm) auto_fix_loop.simps, simp)+
      with m Done True show ?thesis by auto
    next
      case (Again hist1)
      with "1.prems" True ra
      have rec: "auto_fix_loop e p files cmd (Suc a) hist1 tr1 = (r, tr')"
        by (subst (asm) auto_fix_loop.simps) simp
      from "1.IH" [OF True ra [symmetric] Again rec] Again
      obtain more2 where i: "length (runs tr') \<le> length (runs tr1) + (Suc maxAttempts - Suc a)"
        "length (runs tr1) \<le> length (runs tr')"
        "r \<noteq> NoResponse" "r \<noteq> ProjectRequired"
        "fixes_of r = Some (hist1 @ more2)"
        "\<forall>f\<in>set more2. Suc a \<le> attempt_of f \<and> attempt_of f \<le> maxAttempts"
        by auto
      from m Again have f1: "hist1 = hist @ more" by simp
      have ne: "more \<noteq> []"
      proof
        assume "more = []"
        with m(5) have "\<nexists>out. exec e a cmd = Inr out" by simp
        then obtain msg where "exec e a cmd = Inl msg" by (cases "exec e a cmd") auto
        with ra Again show False by (simp add: run_attempt_def Let_def)
      qed
      show ?thesis
        using i m True f1 ne
        by (intro conjI exI [of _ "more @ more2"]) auto
    qed
  qed
qed

subsection \<open>What the prompt embeds\<close>

lemma obj_put_set: "set (obj_put obj k v) \<subseteq> insert (k, v) (set obj)"
  by (induction obj k v rule: obj_put.induct) auto

lemma obj_put_length: "length (obj_put obj k v) \<le> Suc (length obj)"
  by (induction obj k v rule: obj_put.induct) auto

lemma obj_assign_set: "set (obj_assign obj k v) \<subseteq> insert (k, v) (set obj)"
  using obj_put_set [of obj k v] by (auto simp: obj_assign_def)

lemma obj_assign_length: "length (obj_assign obj k v) \<le> Suc (length obj)"
  using obj_put_length [of obj k v] by (simp add: obj_assign_def)

lemma read_files_length:
  "length (read_files e a p i files obj) \<le> length obj + length files"
proof (induction files arbitrary: i obj)
  case Nil
  then show ?case by simp
next
  case (Cons f files)
  show ?case
  proof (cases "readFile e a i p f")
    case ReadThrows
    with Cons.IH [of "Suc i" obj] show ?thesis by simp
  next
    case ReadNull
    with Cons.IH [of "Suc i" "obj_assign obj f None"] obj_assign_length [of obj f None]
    show ?thesis by simp
  next
    case (ReadText t)
    with Cons.IH [of "Suc i" "obj_assign obj f (Some t)"] obj_assign_length [of obj f "Some t"]
    show ?thesis by simp
  qed
qed

text \<open>
  Every property of \<open>fileContents\<close> with a text was read from the store: its key is one
  of the files of the slice, and its text is what the read of that file returned.
\<close>

lemma read_files_set:
  assumes "(k, Some t) \<in> set (read_files e a p i files obj)"
  shows "(k, Some t) \<in> set obj
         \<or> (\<exists>j<length files. files ! j = k \<and> readFile e a (i + j) p k = ReadText t)"
  using assms
proof (induction files arbitrary: i obj)
  case Nil
  then show ?case by simp
next
  case (Cons f files)
  have later: "\<exists>j<length (f # files). (f # files) ! j = k
                 \<and> readFile e a (i + j) p k = ReadText t"
    if "\<exists>j<length files. files ! j = k \<and> readFile e a (Suc i + j) p k = ReadText t"
  proof -
    from that obtain j where "j < length files" "files ! j = k"
      "readFile e a (Suc i + j) p k = ReadText t"
      by blast
    then show ?thesis by (intro exI [of _ "Suc j"]) simp
  qed
  have here: "\<exists>j<length (f # files). (f # files) ! j = k
                \<and> readFile e a (i + j) p k = ReadText t"
    if "k = f" "readFile e a i p f = ReadText t"
    using that by (intro exI [of _ 0]) simp
  show ?case
  proof (cases "readFile e a i p f")
    case ReadThrows
    with Cons.prems have "(k, Some t) \<in> set (read_files e a p (Suc i) files obj)" by simp
    from Cons.IH [OF this] later show ?thesis by blast
  next
    case ReadNull
    with Cons.prems
    have "(k, Some t) \<in> set (read_files e a p (Suc i) files (obj_assign obj f None))" by simp
    from Cons.IH [OF this] later obj_assign_set [of obj f None] show ?thesis by blast
  next
    case (ReadText u)
    with Cons.prems
    have "(k, Some t) \<in> set (read_files e a p (Suc i) files (obj_assign obj f (Some u)))"
      by simp
    from Cons.IH [OF this]
    consider "(k, Some t) \<in> set (obj_assign obj f (Some u))"
      | "\<exists>j<length files. files ! j = k \<and> readFile e a (Suc i + j) p k = ReadText t"
      by blast
    then show ?thesis
    proof cases
      case 1
      with obj_assign_set [of obj f "Some u"]
      have "(k, Some t) \<in> set obj \<or> (k = f \<and> t = u)" by auto
      with here ReadText show ?thesis by blast
    next
      case 2
      with later show ?thesis by blast
    qed
  qed
qed

lemma fileContents_length: "length (fileContents e a p files) \<le> 10"
  using read_files_length [of e a p 0 "take 10 files" "[]"]
  by (simp add: fileContents_def)

lemma fileContents_read:
  assumes "(k, Some t) \<in> set (fileContents e a p files)"
  shows "\<exists>i. i < 10 \<and> i < length files \<and> files ! i = k \<and> readFile e a i p k = ReadText t"
proof -
  from read_files_set [OF assms [unfolded fileContents_def]]
  obtain j where "j < length (take 10 files)" "take 10 files ! j = k"
    "readFile e a (0 + j) p k = ReadText t"
    by auto
  then show ?thesis by (intro exI [of _ j]) simp
qed

lemma entries_length: "length (entries obj) = length obj"
  using sum_length_filter_compl [of "\<lambda>p. array_index (fst p) \<noteq> None" obj]
  by (simp add: entries_def)

lemma entries_set: "set (entries obj) = set obj"
  by (auto simp: entries_def)

text \<open>
  The files that a prompt embeds are at most ten, each is one of the first ten project
  files, and its content is the first 3000 code units of what the read of that file
  returned.
\<close>

lemma embedded_files_read:
  assumes "embedded (fileContents e a p files) = Some emb"
  shows "length emb \<le> 10
         \<and> (\<forall>f\<in>set emb. length (snd f) \<le> 3000
               \<and> (\<exists>i t. i < 10 \<and> i < length files \<and> files ! i = fst f
                     \<and> readFile e a i p (fst f) = ReadText t \<and> snd f = take 3000 t))"
proof -
  let ?obj = "fileContents e a p files"
  from assms have none: "\<not> list_ex (\<lambda>p. snd p = None) (entries ?obj)"
    and emb: "emb = map (\<lambda>p. (fst p, take 3000 (case snd p of None \<Rightarrow> [] | Some c \<Rightarrow> c)))
                      (entries ?obj)"
    by (simp_all add: embedded_def split: if_splits)
  have len: "length emb \<le> 10"
    using fileContents_length [of e a p files] by (simp add: emb entries_length)
  have each: "length (snd f) \<le> 3000
              \<and> (\<exists>i t. i < 10 \<and> i < length files \<and> files ! i = fst f
                    \<and> readFile e a i p (fst f) = ReadText t \<and> snd f = take 3000 t)"
    if "f \<in> set emb" for f
  proof -
    from that emb obtain k v where kv: "(k, v) \<in> set (entries ?obj)"
      "f = (k, take 3000 (case v of None \<Rightarrow> [] | Some c \<Rightarrow> c))"
      by auto
    from kv(1) none obtain t where t: "v = Some t"
      by (cases v) (auto simp: list_ex_iff)
    from kv(1) t have "(k, Some t) \<in> set ?obj" by (simp add: entries_set)
    from fileContents_read [OF this] kv(2) t show ?thesis by auto
  qed
  from len each show ?thesis by blast
qed

subsection \<open>The prompts of a request\<close>

lemma repair_prompt_mono: "repair_prompt e p files cmd (Suc a) q \<Longrightarrow> repair_prompt e p files cmd a q"
  unfolding repair_prompt_def by (metis Suc_leD)

lemma analyze_and_fix_prompts:
  assumes "analyze_and_fix e p files cmd a (run_output out) hist tr = (c, tr')"
    and "exec e a cmd = Inr out" and "a \<le> maxAttempts"
  shows "set (prompts tr') \<subseteq> set (prompts tr) \<union> Collect (repair_prompt e p files cmd a)"
proof (cases "embedded (fileContents e a p files)")
  case None
  with assms show ?thesis by (auto simp: analyze_and_fix_def)
next
  case (Some emb)
  note emb = this
  from emb assms(2,3) have b: "repair_prompt e p files cmd a (fixPrompt emb cmd (run_output out))"
    unfolding repair_prompt_def by blast
  show ?thesis
  proof (cases "callHF e a (fixPrompt emb cmd (run_output out))")
    case (Inl msg)
    with assms emb b show ?thesis by (auto simp: analyze_and_fix_def Let_def)
  next
    case (Inr ai)
    obtain sts where sts: "exec_loop fileRegex 0 ai = Some sts"
      using exec_loop_fileRegex [of 0 ai] by blast
    obtain ff written where w: "write_fixes e a p 0 sts = (ff, written)"
      by (cases "write_fixes e a p 0 sts")
    show ?thesis
    proof (cases "ff = []")
      case True
      with assms emb Inr sts w b show ?thesis
        by (auto simp: analyze_and_fix_def Let_def)
    next
      case False
      with assms emb Inr sts w b show ?thesis
        by (auto simp: analyze_and_fix_def Let_def)
    qed
  qed
qed

lemma run_attempt_prompts:
  assumes "run_attempt e p files cmd a hist tr = (c, tr')" and "a \<le> maxAttempts"
  shows "set (prompts tr') \<subseteq> set (prompts tr) \<union> Collect (repair_prompt e p files cmd a)"
proof (cases "exec e a cmd")
  case (Inl msg)
  with assms show ?thesis by (auto simp: run_attempt_def Let_def)
next
  case (Inr out)
  note out = this
  show ?thesis
  proof (cases "run_success out")
    case True
    with assms out show ?thesis by (auto simp: run_attempt_def Let_def)
  next
    case False
    with assms out
    have "analyze_and_fix e p files cmd a (run_output out) (hist @ [FixError a (run_output out)])
            (tr\<lparr>runs := runs tr @ [cmd]\<rparr>) = (c, tr')"
      by (simp add: run_attempt_def Let_def)
    from analyze_and_fix_prompts [OF this out assms(2)] show ?thesis by simp
  qed
qed

lemma auto_fix_loop_prompts:
  assumes "auto_fix_loop e p files cmd a hist tr = (r, tr')"
  shows "set (prompts tr') \<subseteq> set (prompts tr) \<union> Collect (repair_prompt e p files cmd a)"
  using assms
proof (induction e p files cmd a hist tr rule: auto_fix_loop.induct)
  case (1 e p files cmd a hist tr)
  show ?case
  proof (cases "a \<le> maxAttempts")
    case False
    with "1.prems" show ?thesis by (subst (asm) auto_fix_loop.simps) auto
  next
    case True
    obtain c tr1 where ra: "run_attempt e p files cmd a hist tr = (c, tr1)"
      by (cases "run_attempt e p files cmd a hist tr")
    note sub = run_attempt_prompts [OF ra True]
    show ?thesis
    proof (cases c)
      case (Done r1)
      with "1.prems" True ra have "tr' = tr1"
        by (subst (asm) auto_fix_loop.simps) simp
      with sub show ?thesis by simp
    next
      case (Again hist1)
      with "1.prems" True ra
      have rec: "auto_fix_loop e p files cmd (Suc a) hist1 tr1 = (r, tr')"
        by (subst (asm) auto_fix_loop.simps) simp
      from "1.IH" [OF True ra [symmetric] Again rec]
      have "set (prompts tr') \<subseteq> set (prompts tr1) \<union> Collect (repair_prompt e p files cmd a)"
        using repair_prompt_mono by blast
      with sub show ?thesis by blast
    qed
  qed
qed

text \<open>The ways through the handler, each with the reason for it.\<close>

lemma auto_fix_cases:
  assumes "auto_fix e req = (r, tr)"
  shows "(\<not> truthy (project req) \<and> r = ProjectRequired \<and> tr = no_trace)
         \<or> (\<exists>p msg. project req = Some p \<and> p \<noteq> [] \<and> getAllProjectFiles e p = Inl msg
               \<and> r = ServerError msg [] \<and> tr = no_trace)
         \<or> (\<exists>p files. project req = Some p \<and> p \<noteq> [] \<and> getAllProjectFiles e p = Inr files
               \<and> choose_command (runCommand req) files = None
               \<and> r = Abandoned [] \<and> tr = no_trace)
         \<or> (\<exists>p files cmd. project req = Some p \<and> p \<noteq> [] \<and> getAllProjectFiles e p = Inr files
               \<and> choose_command (runCommand req) files = Some cmd
               \<and> auto_fix_loop e p files cmd 1 [] no_trace = (r, tr))"
proof (cases "project req")
  case None
  with assms show ?thesis by (simp add: auto_fix_def)
next
  case (Some p)
  note p = this
  show ?thesis
  proof (cases "p = []")
    case True
    with assms p show ?thesis by (simp add: auto_fix_def)
  next
    case False
    note ne = this
    show ?thesis
    proof (cases "getAllProjectFiles e p")
      case (Inl msg)
      with assms p ne show ?thesis by (simp add: auto_fix_def)
    next
      case (Inr files)
      with assms p ne show ?thesis
        by (cases "choose_command (runCommand req) files") (simp_all add: auto_fix_def)
    qed
  qed
qed

text \<open>
  C1 (amended).  The loop hands the command to \<open>exec\<close> at most five times, every entry
  of the history carries an attempt number from 1 to 5, and the loop over the matches of
  the provider's answer never keeps the handler from answering.  A command is handed to
  \<open>exec\<close> exactly when the request names a project, the listing of its files returns and
  a run command is found.  The history that is returned is non-empty exactly when,
  moreover, the first call of \<open>exec\<close> returns: it is empty in the Abandoned response, in
  the response to a failed listing, and in the response to an \<open>exec\<close> that throws in the
  first attempt; the response for a missing project has no history.
\<close>

theorem auto_fix_bounded_history:
  assumes "auto_fix e req = (r, tr)"
  shows "length (runs tr) \<le> 5 \<and> r \<noteq> NoResponse
         \<and> (\<forall>hist. fixes_of r = Some hist \<longrightarrow>
               (\<forall>f\<in>set hist. 1 \<le> attempt_of f \<and> attempt_of f \<le> 5)
               \<and> (hist \<noteq> [] \<longleftrightarrow>
                    (\<exists>p projectFiles command out.
                        project req = Some p \<and> p \<noteq> []
                        \<and> getAllProjectFiles e p = Inr projectFiles
                        \<and> choose_command (runCommand req) projectFiles = Some command
                        \<and> exec e 1 command = Inr out)))
         \<and> (runs tr \<noteq> [] \<longleftrightarrow>
              (\<exists>p projectFiles command.
                  project req = Some p \<and> p \<noteq> []
                  \<and> getAllProjectFiles e p = Inr projectFiles
                  \<and> choose_command (runCommand req) projectFiles = Some command))
         \<and> (runs tr \<noteq> [] \<longrightarrow> (\<exists>hist. fixes_of r = Some hist))"
proof -
  from auto_fix_cases [OF assms]
  consider (none) "\<not> truthy (project req)" "r = ProjectRequired" "tr = no_trace"
    | (listing) p msg where "project req = Some p" "p \<noteq> []" "getAllProjectFiles e p = Inl msg"
        "r = ServerError msg []" "tr = no_trace"
    | (abandoned) p files where "project req = Some p" "p \<noteq> []"
        "getAllProjectFiles e p = Inr files" "choose_command (runCommand req) files = None"
        "r = Abandoned []" "tr = no_trace"
    | (loop) p files cmd where "project req = Some p" "p \<noteq> []"
        "getAllProjectFiles e p = Inr files" "choose_command (runCommand req) files = Some cmd"
        "auto_fix_loop e p files cmd 1 [] no_trace = (r, tr)"
    by blast
  then show ?thesis
  proof cases
    case none
    then show ?thesis by (cases "project req") (auto simp: no_trace_def)
  next
    case listing
    then show ?thesis by (auto simp: no_trace_def)
  next
    case abandoned
    then show ?thesis by (auto simp: no_trace_def)
  next
    case loop
    from auto_fix_loop_inv [OF loop(5)]
    obtain more where i: "length (runs tr) \<le> 5" "runs tr \<noteq> []" "r \<noteq> NoResponse"
      "fixes_of r = Some more" "more \<noteq> [] \<longleftrightarrow> (\<exists>out. exec e 1 cmd = Inr out)"
      "\<forall>f\<in>set more. 1 \<le> attempt_of f \<and> attempt_of f \<le> 5"
      by (auto simp: maxAttempts_def no_trace_def)
    have "(\<exists>p' projectFiles command out.
              project req = Some p' \<and> p' \<noteq> [] \<and> getAllProjectFiles e p' = Inr projectFiles
              \<and> choose_command (runCommand req) projectFiles = Some command
              \<and> exec e 1 command = Inr out)
          \<longleftrightarrow> (\<exists>out. exec e 1 cmd = Inr out)"
      using loop(1-4) by auto
    moreover have "\<exists>p' projectFiles command.
              project req = Some p' \<and> p' \<noteq> [] \<and> getAllProjectFiles e p' = Inr projectFiles
              \<and> choose_command (runCommand req) projectFiles = Some command"
      using loop(1-4) by blast
    ultimately show ?thesis using i by simp
  qed
qed

theorem auto_fix_bounded_history_witness:
  "auto_fix stuck_env demo_request
     = (Exhausted [FixError 1 ''NameError'', FixNone 1 ''I cannot fix this.''],
        \<lparr>runs = [''py app.py''],
         prompts = [fixPrompt (map (\<lambda>f. (f, ''x = 1'')) (take 10 twelve_files))
                      ''py app.py'' ''NameError''],
         writes = []\<rparr>)
   \<and> exec stuck_env 1 ''py app.py'' = Inr run_failed
   \<and> auto_fix refusing_env refused_request
       = (ServerError refused [], \<lparr>runs = [[CHR 0x00]], prompts = [], writes = []\<rparr>)
   \<and> exec refusing_env 1 [CHR 0x00] = Inl refused"
proof -
  have h: "auto_fix stuck_env demo_request
     = (Exhausted [FixError 1 ''NameError'', FixNone 1 ''I cannot fix this.''],
        \<lparr>runs = [''py app.py''],
         prompts = [fixPrompt (map (\<lambda>f. (f, ''x = 1'')) (take 10 twelve_files))
                      ''py app.py'' ''NameError''],
         writes = []\<rparr>)"
    by code_simp
  have g: "auto_fix refusing_env refused_request
             = (ServerError refused [], \<lparr>runs = [[CHR 0x00]], prompts = [], writes = []\<rparr>)"
    by code_simp
  have x: "exec stuck_env 1 ''py app.py'' = Inr run_failed"
    by (simp add: stuck_env_def demo_env_def)
  have y: "exec refusing_env 1 [CHR 0x00] = Inl refused"
    by (simp add: refusing_env_def demo_env_def)
  from auto_fix_bounded_history [OF h] auto_fix_bounded_history [OF g] h g x y
  show ?thesis by simp
qed

text \<open>
  C1 as stated fails: for a project that holds \<open>README.md\<close> only and a request without
  a run command, the handler answers with the empty history.
\<close>

theorem auto_fix_abandoned_empty_history:
  "fixes_of (fst (auto_fix docs_env demo_request)) = Some []"
  by code_simp

text \<open>
  C4.  When the first run of the chosen command reports no failure, the handler answers
  with \<open>success: true\<close> and a history of exactly one entry, the \<open>success\<close> entry of
  attempt 1; the command was run once and no prompt was submitted to the completion
  provider.
\<close>

theorem first_run_success:
  assumes "project req = Some p" and "p \<noteq> []"
    and "getAllProjectFiles e p = Inr files"
    and "choose_command (runCommand req) files = Some cmd"
    and "exec e 1 cmd = Inr out" and "run_success out"
  shows "auto_fix e req
           = (Succeeded [FixSuccess 1 (run_output out)] (run_output out),
              \<lparr>runs = [cmd], prompts = [], writes = []\<rparr>)"
proof -
  have "auto_fix_loop e p files cmd 1 [] no_trace
          = (Succeeded [FixSuccess 1 (run_output out)] (run_output out),
             \<lparr>runs = [cmd], prompts = [], writes = []\<rparr>)"
    using assms(5,6)
    by (subst auto_fix_loop.simps)
       (simp add: maxAttempts_def run_attempt_def Let_def no_trace_def)
  with assms(1-4) show ?thesis by (simp add: auto_fix_def)
qed

theorem first_run_success_witness:
  "project demo_request = Some ''demo'' \<and> ''demo'' \<noteq> []
   \<and> getAllProjectFiles working_env ''demo'' = Inr [''app.py'', ''requirements.txt'']
   \<and> choose_command (runCommand demo_request) [''app.py'', ''requirements.txt'']
       = Some ''py app.py''
   \<and> exec working_env 1 ''py app.py'' = Inr run_ok
   \<and> run_success run_ok
   \<and> auto_fix working_env demo_request
       = (Succeeded [FixSuccess 1 ''hello''] ''hello'',
          \<lparr>runs = [''py app.py''], prompts = [], writes = []\<rparr>)"
proof -
  have h1: "project demo_request = Some ''demo''" by (simp add: demo_request_def)
  have h2: "''demo'' \<noteq> []" by simp
  have h3: "getAllProjectFiles working_env ''demo'' = Inr [''app.py'', ''requirements.txt'']"
    by (simp add: working_env_def demo_env_def)
  have h4: "choose_command (runCommand demo_request) [''app.py'', ''requirements.txt'']
              = Some ''py app.py''"
    by code_simp
  have h5: "exec working_env 1 ''py app.py'' = Inr run_ok"
    by (simp add: working_env_def demo_env_def)
  have h6: "run_success run_ok" by (simp add: run_success_def run_ok_def)
  have out: "run_output run_ok = ''hello''" by (simp add: run_output_def run_ok_def)
  from first_run_success [OF h1 h2 h3 h4 h5 h6] h1 h2 h3 h4 h5 h6 out show ?thesis by simp
qed

text \<open>
  C3.  In a repair cycle (attempt \<open>attempt\<close> of the loop, whatever the history and the
  trace before it) in which the run fails and the provider's answer holds no file edit
  that the \<open>FILE:\<close> grammar extracts, the loop ends at once: the response is
  \<open>success: false\<close> after the loop (Exhausted), the last entry of the history is the
  \<open>no_fix_found\<close> entry of this attempt, and the command is not run again.
\<close>

theorem no_fix_found_exhausts:
  assumes "attempt \<le> maxAttempts"
    and "exec e attempt cmd = Inr out" and "\<not> run_success out"
    and "embedded (fileContents e attempt p files) = Some emb"
    and "callHF e attempt (fixPrompt emb cmd (run_output out)) = Inr aiResponse"
    and "file_blocks aiResponse = Some []"
  shows "auto_fix_loop e p files cmd attempt hist tr
           = (Exhausted (hist @ [FixError attempt (run_output out),
                                 FixNone attempt (take 500 aiResponse)]),
              tr\<lparr>runs := runs tr @ [cmd],
                 prompts := prompts tr @ [fixPrompt emb cmd (run_output out)]\<rparr>)"
proof -
  from assms(6) obtain sts where sts: "exec_loop fileRegex 0 aiResponse = Some sts"
    and none: "filter accepted (map file_edit_of sts) = []"
    by (auto simp: file_blocks_def)
  have w: "write_fixes e attempt p 0 sts = ([], [])"
    by (rule write_fixes_none [OF none])
  have "run_attempt e p files cmd attempt hist tr
          = (Done (Exhausted (hist @ [FixError attempt (run_output out),
                                      FixNone attempt (take 500 aiResponse)])),
             tr\<lparr>runs := runs tr @ [cmd],
                prompts := prompts tr @ [fixPrompt emb cmd (run_output out)]\<rparr>)"
    using assms(2-5) sts w
    by (simp add: run_attempt_def analyze_and_fix_def Let_def)
  with assms(1) show ?thesis
    by (subst auto_fix_loop.simps) simp
qed

theorem no_fix_found_exhausts_witness:
  "(1::nat) \<le> maxAttempts
   \<and> exec stuck_env 1 ''py app.py'' = Inr run_failed
   \<and> \<not> run_success run_failed
   \<and> embedded (fileContents stuck_env 1 ''demo'' twelve_files)
       = Some (map (\<lambda>f. (f, ''x = 1'')) (take 10 twelve_files))
   \<and> callHF stuck_env 1
        (fixPrompt (map (\<lambda>f. (f, ''x = 1'')) (take 10 twelve_files)) ''py app.py''
           (run_output run_failed))
       = Inr ''I cannot fix this.''
   \<and> file_blocks ''I cannot fix this.'' = Some []
   \<and> auto_fix_loop stuck_env ''demo'' twelve_files ''py app.py'' 1 [] no_trace
       = (Exhausted [FixError 1 ''NameError'', FixNone 1 ''I cannot fix this.''],
          \<lparr>runs = [''py app.py''],
           prompts = [fixPrompt (map (\<lambda>f. (f, ''x = 1'')) (take 10 twelve_files))
                        ''py app.py'' ''NameError''],
           writes = []\<rparr>)"
proof -
  have h1: "(1::nat) \<le> maxAttempts" by (simp add: maxAttempts_def)
  have h2: "exec stuck_env 1 ''py app.py'' = Inr run_failed"
    by (simp add: stuck_env_def demo_env_def)
  have h3: "\<not> run_success run_failed" by (simp add: run_success_def run_failed_def)
  have h4: "embedded (fileContents stuck_env 1 ''demo'' twelve_files)
              = Some (map (\<lambda>f. (f, ''x = 1'')) (take 10 twelve_files))"
    by code_simp
  have h5: "callHF stuck_env 1
        (fixPrompt (map (\<lambda>f. (f, ''x = 1'')) (take 10 twelve_files)) ''py app.py''
           (run_output run_failed))
       = Inr ''I cannot fix this.''"
    by (simp add: stuck_env_def demo_env_def)
  have h6: "file_blocks ''I cannot fix this.'' = Some []" by code_simp
  have out: "run_output run_failed = ''NameError''"
    by (simp add: run_output_def run_failed_def)
  from no_fix_found_exhausts [OF h1 h2 h3 h4 h5 h6, of "[]" no_trace] h1 h2 h3 h4 h5 h6 out
  show ?thesis by (simp add: no_trace_def)
qed

lemma long_env_embedded:
  "embedded (fileContents long_env a ''demo'' twelve_files)
     = Some (map (\<lambda>f. (f, if f = ''app.py'' then take 3000 long_text else ''x = 1''))
               (take 10 twelve_files))"
  by (simp add: embedded_def entries_def fileContents_def twelve_files_def long_env_def
                obj_assign_def array_index_def is_digit_def)

lemma long_env_auto_fix:
  "auto_fix long_env demo_request
     = (Exhausted [FixError 1 ''NameError'', FixNone 1 ''I cannot fix this.''],
        \<lparr>runs = [''py app.py''],
         prompts = [fixPrompt (map (\<lambda>f. (f, if f = ''app.py'' then take 3000 long_text
                                              else ''x = 1''))
                                 (take 10 twelve_files))
                      ''py app.py'' ''NameError''],
         writes = []\<rparr>)"
proof -
  have c: "choose_command None twelve_files = Some ''py app.py''" by code_simp
  have x: "exec long_env 1 ''py app.py'' = Inr run_failed"
    "getAllProjectFiles long_env ''demo'' = Inr twelve_files"
    "\<And>q. callHF long_env 1 q = Inr ''I cannot fix this.''"
    by (simp_all add: long_env_def)
  have f: "\<not> run_success run_failed" "run_output run_failed = ''NameError''"
    by (simp_all add: run_success_def run_output_def run_failed_def)
  have m: "exec_loop fileRegex 0 ''I cannot fix this.'' = Some []" by code_simp
  have "run_attempt long_env ''demo'' twelve_files ''py app.py'' 1 [] no_trace
          = (Done (Exhausted [FixError 1 ''NameError'', FixNone 1 ''I cannot fix this.'']),
             \<lparr>runs = [''py app.py''],
              prompts = [fixPrompt (map (\<lambda>f. (f, if f = ''app.py'' then take 3000 long_text
                                                   else ''x = 1''))
                                      (take 10 twelve_files))
                           ''py app.py'' ''NameError''],
              writes = []\<rparr>)"
    using x f m long_env_embedded [of 1]
    by (simp add: run_attempt_def analyze_and_fix_def Let_def no_trace_def)
  then have "auto_fix_loop long_env ''demo'' twelve_files ''py app.py'' 1 [] no_trace
          = (Exhausted [FixError 1 ''NameError'', FixNone 1 ''I cannot fix this.''],
             \<lparr>runs = [''py app.py''],
              prompts = [fixPrompt (map (\<lambda>f. (f, if f = ''app.py'' then take 3000 long_text
                                                   else ''x = 1''))
                                      (take 10 twelve_files))
                           ''py app.py'' ''NameError''],
              writes = []\<rparr>)"
    by (subst auto_fix_loop.simps) (simp add: maxAttempts_def)
  with c x(2) show ?thesis
    by (simp add: auto_fix_def demo_request_def)
qed

text \<open>
  C8.  Every prompt that a request submits to the completion provider is the repair
  prompt of one of its attempts, built around the files that this attempt embeds.  These
  are at most ten files, however many the project has; each is one of the first ten
  project files, and its embedded content is the first 3000 code units of what the read
  of that file returned, however long the file is.
\<close>

theorem repair_prompt_bounded:
  assumes "auto_fix e req = (r, tr)"
  shows "\<forall>q\<in>set (prompts tr).
           \<exists>p projectFiles command a out files.
             project req = Some p \<and> getAllProjectFiles e p = Inr projectFiles
             \<and> choose_command (runCommand req) projectFiles = Some command
             \<and> 1 \<le> a \<and> a \<le> 5 \<and> exec e a command = Inr out
             \<and> embedded (fileContents e a p projectFiles) = Some files
             \<and> q = fixPrompt files command (run_output out)
             \<and> length files \<le> 10
             \<and> (\<forall>f\<in>set files. length (snd f) \<le> 3000
                   \<and> (\<exists>i t. i < 10 \<and> i < length projectFiles \<and> projectFiles ! i = fst f
                         \<and> readFile e a i p (fst f) = ReadText t \<and> snd f = take 3000 t))"
proof
  fix q assume q: "q \<in> set (prompts tr)"
  from auto_fix_cases [OF assms] q
  obtain p files cmd where l: "project req = Some p" "getAllProjectFiles e p = Inr files"
    "choose_command (runCommand req) files = Some cmd"
    "auto_fix_loop e p files cmd 1 [] no_trace = (r, tr)"
    by (auto simp: no_trace_def)
  from auto_fix_loop_prompts [OF l(4)] q have "repair_prompt e p files cmd 1 q"
    by (auto simp: no_trace_def)
  then obtain a out emb where a: "1 \<le> a" "a \<le> 5" "exec e a cmd = Inr out"
    "embedded (fileContents e a p files) = Some emb" "q = fixPrompt emb cmd (run_output out)"
    unfolding repair_prompt_def maxAttempts_def by blast
  from embedded_files_read [OF a(4)] l(1-3) a
  show "\<exists>p projectFiles command a out files.
             project req = Some p \<and> getAllProjectFiles e p = Inr projectFiles
             \<and> choose_command (runCommand req) projectFiles = Some command
             \<and> 1 \<le> a \<and> a \<le> 5 \<and> exec e a command = Inr out
             \<and> embedded (fileContents e a p projectFiles) = Some files
             \<and> q = fixPrompt files command (run_output out)
             \<and> length files \<le> 10
             \<and> (\<forall>f\<in>set files. length (snd f) \<le> 3000
                   \<and> (\<exists>i t. i < 10 \<and> i < length projectFiles \<and> projectFiles ! i = fst f
                         \<and> readFile e a i p (fst f) = ReadText t \<and> snd f = take 3000 t))"
    by blast
qed

theorem repair_prompt_bounded_witness:
  "prompts (snd (auto_fix long_env demo_request))
     = [fixPrompt (map (\<lambda>f. (f, if f = ''app.py'' then take 3000 long_text else ''x = 1''))
                     (take 10 twelve_files))
          ''py app.py'' ''NameError'']
   \<and> length twelve_files = 12 \<and> length long_text = 3005
   \<and> length (take 3000 long_text) = 3000
   \<and> (\<exists>p projectFiles command a out files.
         project demo_request = Some p \<and> getAllProjectFiles long_env p = Inr projectFiles
         \<and> choose_command (runCommand demo_request) projectFiles = Some command
         \<and> 1 \<le> a \<and> a \<le> 5 \<and> exec long_env a command = Inr out
         \<and> embedded (fileContents long_env a p projectFiles) = Some files
         \<and> fixPrompt (map (\<lambda>f. (f, if f = ''app.py'' then take 3000 long_text else ''x = 1''))
                         (take 10 twelve_files))
              ''py app.py'' ''NameError''
             = fixPrompt files command (run_output out)
         \<and> length files \<le> 10
         \<and> (\<forall>f\<in>set files. length (snd f) \<le> 3000
               \<and> (\<exists>i t. i < 10 \<and> i < length projectFiles \<and> projectFiles ! i = fst f
                     \<and> readFile long_env a i p (fst f) = ReadText t \<and> snd f = take 3000 t)))"
proof -
  note h = long_env_auto_fix
  have n: "length twelve_files = 12" "length long_text = 3005"
    "length (take 3000 long_text) = 3000"
    by (simp_all add: twelve_files_def long_text_def)
  from repair_prompt_bounded [OF h] h n show ?thesis by simp
qed

section \<open>The terminal endpoints\<close>

text \<open>
  C5.  A kill request that names a PID and whose \<open>taskkill\<close> fails is answered with
  \<open>success: false\<close> and the error text, as a value, and it leaves both maps of the server
  as they were.
\<close>

theorem failed_kill_keeps_registry:
  assumes "truthy_val v"
    and "run (''taskkill /F /PID '' @ print_val v) = Inr r"
    and "error r = Some message"
  shows "terminal_kill run st v
           = (KillFailed (''Could not kill process: ''
                @ (if stderr r \<noteq> [] then stderr r else message)), st)
         \<and> kill_success (fst (terminal_kill run st v)) = Some False
         \<and> runningProcesses (snd (terminal_kill run st v)) = runningProcesses st"
  using assms by (simp add: terminal_kill_def Let_def)

theorem failed_kill_keeps_registry_witness:
  "truthy_val (Num 99)
   \<and> noisy_run (''taskkill /F /PID '' @ print_val (Num 99)) = Inr noisy_failure
   \<and> error noisy_failure = Some ''Command failed: node build.js''
   \<and> terminal_kill noisy_run busy_state (Num 99)
       = (KillFailed ''Could not kill process: SyntaxError'', busy_state)
   \<and> runningProcesses busy_state = [(''demo'', \<lparr>pid = Some 4242\<rparr>)]"
proof -
  have h1: "truthy_val (Num 99)" by simp
  have h2: "noisy_run (''taskkill /F /PID '' @ print_val (Num 99)) = Inr noisy_failure"
    by (simp add: noisy_run_def)
  have h3: "error noisy_failure = Some ''Command failed: node build.js''"
    by (simp add: noisy_failure_def)
  have s: "stderr noisy_failure = ''SyntaxError''"
    by (simp add: noisy_failure_def)
  have b: "runningProcesses busy_state = [(''demo'', \<lparr>pid = Some 4242\<rparr>)]"
    by (simp add: busy_state_def reach_def initial_state_def)
  from failed_kill_keeps_registry
         [where run = noisy_run and v = "Num 99" and st = busy_state, OF h1 h2 h3]
    h1 h2 h3 s b
  show ?thesis by simp
qed

text \<open>
  C6 (amended).  A synchronous command whose run fails, as \<open>exec\<close> reports to its
  callback, is answered with a value that carries \<open>error: true\<close>.  In
  \<open>/api/terminal/run\<close> the output of a failed command is the captured stderr if it is not
  empty, else the captured stdout if it is not empty, else the message of the error.  In
  the verification run of \<open>/api/ai/auto-fix\<close> the run counts as failed, it is recorded
  as the \<open>error_detected\<close> entry of the attempt, and its output is the captured stdout if
  it is not empty, else the captured stderr, else the message of the error.  A command
  that \<open>exec\<close> refuses with a throw is not reported in this way: the \<open>catch\<close> of
  \<open>/api/terminal/run\<close> answers with status 500 and the message of the throw, without
  output and without the error flag, and the \<open>catch\<close> of \<open>/api/ai/auto-fix\<close> answers
  with status 500, the message and the history up to this attempt.
\<close>

theorem failed_command_output:
  assumes "\<not> isServerCommand command"
  shows "(\<forall>r message. run (sync_cmd command) = Inr r \<and> error r = Some message \<longrightarrow>
            terminal_run run (Command command)
              = RunOutput (if stderr r \<noteq> [] then stderr r
                           else if stdout r \<noteq> [] then stdout r else message) True)
         \<and> (\<forall>msg. run (sync_cmd command) = Inl msg \<longrightarrow>
                terminal_run run (Command command) = RunThrew msg)
         \<and> (\<forall>r message. exec e a cmd = Inr r \<and> error r = Some message \<longrightarrow>
                \<not> run_success r
                \<and> run_output r = (if stdout r \<noteq> [] then stdout r
                                   else if stderr r \<noteq> [] then stderr r else message)
                \<and> run_attempt e p files cmd a hist tr
                    = analyze_and_fix e p files cmd a (run_output r)
                        (hist @ [FixError a (run_output r)]) (tr\<lparr>runs := runs tr @ [cmd]\<rparr>))
         \<and> (\<forall>msg. exec e a cmd = Inl msg \<longrightarrow>
                run_attempt e p files cmd a hist tr
                  = (Done (ServerError msg hist), tr\<lparr>runs := runs tr @ [cmd]\<rparr>))"
  using assms
  by (simp add: terminal_run_def sync_response_def run_success_def run_output_def
                run_attempt_def Let_def)

theorem failed_command_output_witness:
  "\<not> isServerCommand ''node build.js''
   \<and> noisy_run (sync_cmd ''node build.js'') = Inr noisy_failure
   \<and> error noisy_failure = Some ''Command failed: node build.js''
   \<and> terminal_run noisy_run (Command ''node build.js'') = RunOutput ''SyntaxError'' True
   \<and> refusing_run (sync_cmd ''node build.js'') = Inl refused
   \<and> terminal_run refusing_run (Command ''node build.js'') = RunThrew refused
   \<and> exec stuck_env 1 ''py app.py'' = Inr run_failed
   \<and> error run_failed = Some ''Command failed: py app.py''
   \<and> \<not> run_success run_failed
   \<and> run_output run_failed = ''NameError''
   \<and> run_attempt stuck_env ''demo'' twelve_files ''py app.py'' 1 [] no_trace
       = analyze_and_fix stuck_env ''demo'' twelve_files ''py app.py'' 1 ''NameError''
           [FixError 1 ''NameError''] (no_trace\<lparr>runs := [''py app.py'']\<rparr>)
   \<and> exec refusing_env 1 [CHR 0x00] = Inl refused
   \<and> run_attempt refusing_env ''demo'' [''app.py''] [CHR 0x00] 1 [] no_trace
       = (Done (ServerError refused []), no_trace\<lparr>runs := [[CHR 0x00]]\<rparr>)"
proof -
  have h1: "\<not> isServerCommand ''node build.js''" by code_simp
  have h2: "noisy_run (sync_cmd ''node build.js'') = Inr noisy_failure"
    by (simp add: noisy_run_def)
  have h3: "error noisy_failure = Some ''Command failed: node build.js''"
    by (simp add: noisy_failure_def)
  have h4: "refusing_run (sync_cmd ''node build.js'') = Inl refused"
    by (simp add: refusing_run_def)
  have h5: "exec stuck_env 1 ''py app.py'' = Inr run_failed"
    by (simp add: stuck_env_def demo_env_def)
  have h6: "error run_failed = Some ''Command failed: py app.py''"
    by (simp add: run_failed_def)
  have h7: "exec refusing_env 1 [CHR 0x00] = Inl refused"
    by (simp add: refusing_env_def demo_env_def)
  have f: "stderr noisy_failure = ''SyntaxError''" "stdout noisy_failure = ''compiling''"
    "stderr run_failed = ''NameError''" "stdout run_failed = []"
    by (simp_all add: noisy_failure_def run_failed_def)
  have n: "runs no_trace = []" by (simp add: no_trace_def)
  from failed_command_output
         [where run = noisy_run and command = "''node build.js''" and e = stuck_env
            and a = 1 and cmd = "''py app.py''" and p = "''demo''" and files = twelve_files
            and hist = "[]" and tr = no_trace, OF h1]
       failed_command_output
         [where run = refusing_run and command = "''node build.js''" and e = refusing_env
            and a = 1 and cmd = "[CHR 0x00]" and p = "''demo''" and files = "[''app.py'']"
            and hist = "[]" and tr = no_trace, OF h1]
       h1 h2 h3 h4 h5 h6 h7 f n
  show ?thesis by simp
qed

text \<open>
  C6 as stated fails in \<open>/api/terminal/run\<close>: a failed command that wrote \<open>compiling\<close> to
  stdout and \<open>SyntaxError\<close> to stderr is answered with the stderr text, not with the
  captured stdout; and a command that \<open>exec\<close> refuses is answered from the \<open>catch\<close>, with
  the message of the throw and no output.
\<close>

theorem failed_command_prefers_stderr:
  "terminal_run noisy_run (Command ''node build.js'') = RunOutput ''SyntaxError'' True
   \<and> noisy_run (sync_cmd ''node build.js'') = Inr noisy_failure
   \<and> stdout noisy_failure = ''compiling''
   \<and> terminal_run refusing_run (Command [CHR 0x00]) = RunThrew refused"
proof -
  have "terminal_run noisy_run (Command ''node build.js'') = RunOutput ''SyntaxError'' True"
    by code_simp
  moreover have "terminal_run refusing_run (Command [CHR 0x00]) = RunThrew refused"
    by code_simp
  ultimately show ?thesis
    by (simp add: noisy_run_def noisy_failure_def)
qed

lemma step_previewServers:
  "previewServers st = [] \<Longrightarrow> previewServers (step st ev) = []"
  by (cases ev)
     (auto simp: terminal_host_def terminal_stop_def terminal_kill_def Let_def map_delete_def
           split: option.splits sum.splits)

lemma foldl_step_previewServers:
  "previewServers st = [] \<Longrightarrow> previewServers (foldl step st events) = []"
  by (induction events arbitrary: st) (simp_all add: step_previewServers)

text \<open>
  C10 (amended).  In every state that the server reaches from its start, the map of
  preview servers is empty.  A host request with a project is answered with
  \<open>success: false\<close> and a stop request with a project is answered with \<open>success: false\<close>
  and the message that no preview server runs for the project; a host or stop request
  without a project is answered with status 400 \<open>Project required\<close>, which carries no
  \<open>success\<close> field.  None of these requests changes the state.
\<close>

theorem preview_servers_always_empty:
  "previewServers (reach events) = []
   \<and> terminal_host (reach events) proj requestedPort
       = (if truthy proj then PreviewNotAvailable else PreviewProjectRequired, reach events)
   \<and> terminal_stop (reach events) proj
       = (if truthy proj then NoPreviewRunning else PreviewProjectRequired, reach events)
   \<and> preview_success PreviewNotAvailable = Some False
   \<and> preview_success NoPreviewRunning = Some False
   \<and> preview_success PreviewProjectRequired = None"
proof -
  have e: "previewServers (reach events) = []"
    unfolding reach_def
    by (rule foldl_step_previewServers) (simp add: initial_state_def)
  then show ?thesis
    by (cases proj) (simp_all add: terminal_host_def terminal_stop_def)
qed

theorem preview_servers_always_empty_witness:
  "previewServers (reach [HostRequest (Some ''demo'') (Num 8000),
                           Registered ''demo'' \<lparr>pid = Some 4242\<rparr>,
                           StopRequest (Some ''demo''),
                           KillRequest (Num 99) (Inr noisy_failure)]) = []
   \<and> reach [HostRequest (Some ''demo'') (Num 8000),
            Registered ''demo'' \<lparr>pid = Some 4242\<rparr>,
            StopRequest (Some ''demo''),
            KillRequest (Num 99) (Inr noisy_failure)] = busy_state
   \<and> terminal_host busy_state (Some ''demo'') (Num 8000) = (PreviewNotAvailable, busy_state)
   \<and> terminal_stop busy_state (Some ''demo'') = (NoPreviewRunning, busy_state)
   \<and> terminal_stop busy_state None = (PreviewProjectRequired, busy_state)"
proof -
  have b: "reach [HostRequest (Some ''demo'') (Num 8000),
                  Registered ''demo'' \<lparr>pid = Some 4242\<rparr>,
                  StopRequest (Some ''demo''),
                  KillRequest (Num 99) (Inr noisy_failure)] = busy_state"
    by (simp add: busy_state_def reach_def initial_state_def terminal_host_def
                  terminal_stop_def terminal_kill_def noisy_failure_def)
  from preview_servers_always_empty
         [of "[HostRequest (Some ''demo'') (Num 8000),
               Registered ''demo'' \<lparr>pid = Some 4242\<rparr>,
               StopRequest (Some ''demo''),
               KillRequest (Num 99) (Inr noisy_failure)]" "Some ''demo''" "Num 8000"]
       preview_servers_always_empty
         [of "[HostRequest (Some ''demo'') (Num 8000),
               Registered ''demo'' \<lparr>pid = Some 4242\<rparr>,
               StopRequest (Some ''demo''),
               KillRequest (Num 99) (Inr noisy_failure)]" None "Num 8000"]
       b
  show ?thesis by simp
qed

text \<open>
  C10 as stated fails for a stop request without a project: it is answered with status
  400 \<open>Project required\<close>, not with \<open>success: false\<close> and the message that no preview
  server runs.
\<close>

theorem stop_without_project:
  "terminal_stop (reach []) None = (PreviewProjectRequired, reach [])
   \<and> preview_success (fst (terminal_stop (reach []) None)) = None
   \<and> fst (terminal_stop (reach []) None) \<noteq> NoPreviewRunning"
  by (simp add: terminal_stop_def)

section \<open>The chat action dispatcher\<close>

lemma deleteRegex_empty: "match_first deleteRegex [] = None"
  by code_simp

text \<open>
  C7 (amended).  An instruction that matches the delete phrasing is answered with the
  \<open>delete_file\<close> action and the path that the pattern captured, and no prompt is submitted
  to the completion provider, whenever the request names a project or the instruction in
  lower case contains none of \<open>create\<close>, \<open>file\<close> and \<open>edit\<close>.  In particular
  \<open>delete the file foo.txt\<close> in a request with a project gives the path \<open>foo.txt\<close>.
\<close>

theorem delete_intent:
  assumes "chat_prompt req = Some prompt"
    and "match_first deleteRegex prompt = Some deleteMatch"
    and "truthy (chat_project req)
         \<or> \<not> (js_includes (toLowerCase prompt) ''create''
               \<or> js_includes (toLowerCase prompt) ''file''
               \<or> js_includes (toLowerCase prompt) ''edit'')"
  shows "ai_chat t e req = (DeleteFile (group deleteMatch 1), no_chat)
         \<and> asked (snd (ai_chat t e req)) = []"
proof -
  from assms(2) deleteRegex_empty have "prompt \<noteq> []" by auto
  with assms show ?thesis by (auto simp: ai_chat_def no_chat_def)
qed

theorem delete_intent_witness:
  "chat_prompt delete_request = Some ''delete the file foo.txt''
   \<and> map_option (\<lambda>st. group st 1) (match_first deleteRegex ''delete the file foo.txt'')
       = Some ''foo.txt''
   \<and> truthy (chat_project delete_request)
   \<and> ai_chat plain_texts quiet_store delete_request = (DeleteFile ''foo.txt'', no_chat)"
proof -
  have h1: "chat_prompt delete_request = Some ''delete the file foo.txt''"
    by (simp add: delete_request_def)
  have g: "map_option (\<lambda>st. group st 1) (match_first deleteRegex ''delete the file foo.txt'')
             = Some ''foo.txt''"
    by code_simp
  then obtain st where h2: "match_first deleteRegex ''delete the file foo.txt'' = Some st"
    and p: "group st 1 = ''foo.txt''"
    by auto
  have h3: "truthy (chat_project delete_request)" by (simp add: delete_request_def)
  from delete_intent [OF h1 h2 disjI1 [OF h3], of plain_texts quiet_store] h1 g h3 p
  show ?thesis by simp
qed

text \<open>
  C7 as stated fails: the instruction \<open>delete the file foo.txt\<close> in a request without a
  project contains the word \<open>file\<close>, and the handler answers with the request to create
  or select a project first.
\<close>

theorem delete_without_project:
  "ai_chat plain_texts quiet_store delete_request_no_project = (ProjectFirst, no_chat)"
  by code_simp

section \<open>The action protocol parser\<close>

lemma trimStart_idem: "trimStart (trimStart s) = trimStart s"
  by (simp add: trimStart_def dropWhile_idem)

lemma trimEnd_idem: "trimEnd (trimEnd s) = trimEnd s"
  by (simp add: trimEnd_def dropWhile_idem)

lemma trimStart_trimEnd: "trimStart (trimEnd (trimStart s)) = trimEnd (trimStart s)"
proof (cases "trimEnd (trimStart s)")
  case Nil
  then show ?thesis by (simp add: trimStart_def)
next
  case (Cons c cs)
  obtain t where t: "t = trimStart s" by simp
  have pre: "prefix (trimEnd t) t"
  proof -
    have "rev t = takeWhile is_space (rev t) @ dropWhile is_space (rev t)" by simp
    then have "t = rev (dropWhile is_space (rev t)) @ rev (takeWhile is_space (rev t))"
      by (metis rev_append rev_rev_ident)
    then show ?thesis unfolding trimEnd_def by (metis prefixI)
  qed
  with Cons t have "prefix (c # cs) t" by simp
  then obtain ds where ds: "t = c # ds" by (auto simp: prefix_def)
  from t ds have "\<not> is_space c"
    unfolding trimStart_def by (metis dropWhile_eq_Cons_conv)
  with Cons t show ?thesis by (simp add: trimStart_def)
qed

lemma trim_idem: "trim (trim s) = trim s"
  by (simp add: trim_def trimStart_trimEnd trimEnd_idem)

lemma file_blocks_accepted:
  "file_blocks s = Some fs \<Longrightarrow> f \<in> set fs \<Longrightarrow> accepted f \<and> trim (content f) = content f"
  by (auto simp: file_blocks_def file_edit_of_def trim_idem)

lemma alt1_blocks_accepted:
  "alt1_blocks s = Some fs \<Longrightarrow> f \<in> set fs \<Longrightarrow> accepted f \<and> trim (content f) = content f"
  by (auto simp: alt1_blocks_def alt_edit_of_def trim_idem)

lemma create_blocks_accepted:
  "create_blocks s = Some fs \<Longrightarrow> f \<in> set fs \<Longrightarrow> accepted f \<and> trim (content f) = content f"
  by (auto simp: create_blocks_def alt_edit_of_def trim_idem)

lemma alt1_blocks_total: "\<exists>fs. alt1_blocks s = Some fs"
  using exec_loop_total [OF consuming_altRegex1, of 0 s] by (auto simp: alt1_blocks_def)

lemma create_blocks_total: "\<exists>fs. create_blocks s = Some fs"
  using exec_loop_total [OF consuming_createRegex, of 0 s] by (auto simp: create_blocks_def)

lemma chat_files_total: "\<exists>fs. chat_files fileOp s = Some fs"
proof -
  obtain f0 where f0: "file_blocks s = Some f0" using file_blocks_total by blast
  obtain f1 where f1: "alt1_blocks s = Some f1" using alt1_blocks_total by blast
  obtain f2 where f2: "create_blocks s = Some f2" using create_blocks_total by blast
  show ?thesis by (simp add: chat_files_def f0 f1 f2)
qed

lemma chat_files_accepted:
  assumes "chat_files fileOp s = Some fs" and "f \<in> set fs"
  shows "accepted f \<and> trim (content f) = content f"
proof -
  obtain f0 where f0: "file_blocks s = Some f0" using file_blocks_total by blast
  obtain f1 where f1: "alt1_blocks s = Some f1" using alt1_blocks_total by blast
  obtain f2 where f2: "create_blocks s = Some f2" using create_blocks_total by blast
  from assms have "f \<in> set f0 \<or> f \<in> set f1 \<or> f \<in> set f2"
    by (auto simp: chat_files_def f0 f1 f2 split: if_splits)
  with file_blocks_accepted [OF f0] alt1_blocks_accepted [OF f1] create_blocks_accepted [OF f2]
  show ?thesis by blast
qed

text \<open>
  C9.  The parser always returns, and every file edit that it returns, from the \<open>FILE:\<close>
  grammar (as \<open>/api/ai/auto-fix\<close> uses it) or from the three grammars of
  \<open>/api/ai/chat\<close>, has a path that is not empty and a content that is not empty and is
  trimmed: a block whose path or whose trimmed body is empty is dropped.
\<close>

theorem parsed_edits_nonempty:
  "(\<exists>files. file_blocks aiResponse = Some files
      \<and> (\<forall>f\<in>set files. filepath f \<noteq> [] \<and> content f \<noteq> [] \<and> trim (content f) = content f))
   \<and> (\<exists>files. chat_files fileOp aiResponse = Some files
      \<and> (\<forall>f\<in>set files. filepath f \<noteq> [] \<and> content f \<noteq> [] \<and> trim (content f) = content f))"
proof -
  obtain f0 where f0: "file_blocks aiResponse = Some f0" using file_blocks_total by blast
  obtain fs where fs: "chat_files fileOp aiResponse = Some fs" using chat_files_total by blast
  from file_blocks_accepted [OF f0] chat_files_accepted [OF fs] f0 fs
  show ?thesis by (auto simp: accepted_def)
qed


theorem parsed_edits_nonempty_witness:
  "file_blocks two_blocks = Some [\<lparr>filepath = ''app.py'', content = ''import os''\<rparr>]
   \<and> chat_files True two_blocks = Some [\<lparr>filepath = ''app.py'', content = ''import os''\<rparr>]
   \<and> trim ''import os'' = ''import os''"
proof -
  have e1: "file_blocks two_blocks = Some [\<lparr>filepath = ''app.py'', content = ''import os''\<rparr>]"
    by code_simp
  have e2: "chat_files True two_blocks = Some [\<lparr>filepath = ''app.py'', content = ''import os''\<rparr>]"
    by code_simp
  from parsed_edits_nonempty [of two_blocks True] e1 e2 show ?thesis by simp
qed

section \<open>Equations of the matcher\<close>

lemma ms_Seq: "ms (Seq a b) st = concat (map (ms b) (ms a st))"
  by (simp add: ms.simps)



lemma ms_Seq_Eps: "ms (Seq r Eps) st = ms r st"
proof -
  have "ms Eps = (\<lambda>x. [x])" by (rule ext) (simp add: ms.simps)
  then show ?thesis by (simp add: ms_Seq)
qed














section \<open>The first match\<close>












section \<open>One well-formed block\<close>





lemma fence_backticks: "''```'' = [backtick, backtick, backtick]"
  by (simp add: backtick_def)









section \<open>A text of well-formed blocks\<close>











section \<open>What the quote pattern removes\<close>

lemma match_at_quoteRegex:
  "match_at quoteRegex (i, x # s, []) =
     (if is_quote x \<and> (i = 0 \<or> s = []) then Some (Suc i, s, []) else None)"
  by (auto simp: match_at_def quoteRegex_def ms.simps rest_of_def)

lemma remove_quotes_inside:
  "0 < i \<Longrightarrow> remove_all quoteRegex i s
     = (if s \<noteq> [] \<and> is_quote (last s) then butlast s else s)"
proof (induction s arbitrary: i)
  case Nil
  then show ?case by simp
next
  case (Cons x s)
  from Cons.IH [of "Suc i"] Cons.prems show ?case
    by (auto simp: match_at_quoteRegex rest_of_def)
qed

text \<open>
  \<open>replace(/^["']|["']$/g, '')\<close> removes one quote character at the start, if there is
  one, and then one at the end, if there is one.
\<close>

lemma strip_quotes_eq:
  "strip_quotes s =
     (let s1 = (if s \<noteq> [] \<and> is_quote (hd s) then tl s else s)
      in if s1 \<noteq> [] \<and> is_quote (last s1) then butlast s1 else s1)"
proof (cases s)
  case Nil
  then show ?thesis by (simp add: strip_quotes_def)
next
  case (Cons x t)
  show ?thesis
  proof (cases "is_quote x")
    case True
    with Cons remove_quotes_inside [of "Suc 0" t] show ?thesis
      by (simp add: strip_quotes_def match_at_quoteRegex rest_of_def)
  next
    case False
    with Cons remove_quotes_inside [of "Suc 0" t] show ?thesis
      by (auto simp: strip_quotes_def match_at_quoteRegex rest_of_def Let_def)
  qed
qed

section \<open>The edits of a well-formed text\<close>





end
